theory Spec2Isabelle
  imports Main
begin

section \<open>PyHammer: the classification pipeline of \<open>main\<close> (pyhammer.py)\<close>

text \<open>
  The theory embeds the function \<open>main\<close> of pyhammer.py and the string operations its
  manifest parser uses. The class \<open>Spectrum\<close>, the Reviewer \<open>Eyecheck\<close>, the file
  system and Python's number formatting are not part of that file: they enter the model as
  parameters (the records \<open>engine\<close> and \<open>platform\<close>). Every effect of \<open>main\<close> (file
  opens, writes and closes, calls of the engine, notifications, the Reviewer, the removal
  of the manifest) is appended to a trace, in program order. An exception that leaves
  \<open>main\<close> is the value \<open>Inl\<close>, together with the state at the raise.
\<close>

subsection \<open>Python strings\<close>

text \<open>
  A Python \<open>str\<close> is a list of characters; a \<open>char\<close> stands for a code point
  below 256. \<open>isspace\<close> is \<open>str.isspace\<close> on these code points, the set that
  \<open>strip()\<close> and \<open>split()\<close> (both without argument) treat as whitespace.
\<close>

definition isspace :: "char \<Rightarrow> bool" where
  "isspace c = (c \<in> set [CHR 0x09, CHR 0x0A, CHR 0x0B, CHR 0x0C, CHR 0x0D,
                           CHR 0x1C, CHR 0x1D, CHR 0x1E, CHR 0x1F, CHR 0x20,
                           CHR 0x85, CHR 0xA0])"

text \<open>\<open>s.strip()\<close>\<close>

definition strip :: "string \<Rightarrow> string" where
  "strip s = rev (dropWhile isspace (rev (dropWhile isspace s)))"

text \<open>\<open>s.find(c)\<close> for a one-character \<open>c\<close>: the first index, or -1.\<close>

fun find_from :: "int \<Rightarrow> char \<Rightarrow> string \<Rightarrow> int" where
  "find_from k c [] = - 1"
| "find_from k c (d # ds) = (if d = c then k else find_from (k + 1) c ds)"

definition find_str :: "string \<Rightarrow> char \<Rightarrow> int" where
  "find_str s c = find_from 0 c s"

text \<open>\<open>s.replace(c, r)\<close> for a one-character \<open>c\<close>.\<close>

definition replace :: "string \<Rightarrow> char \<Rightarrow> string \<Rightarrow> string" where
  "replace s c r = concat (map (\<lambda>d. if d = c then r else [d]) s)"

text \<open>\<open>s.split()\<close>: the maximal runs of characters that are not whitespace.\<close>

fun split_from :: "string \<Rightarrow> string \<Rightarrow> string list" where
  "split_from w [] = (if w = [] then [] else [w])"
| "split_from w (c # cs) =
     (if isspace c then (if w = [] then split_from [] cs else w # split_from [] cs)
      else split_from (w @ [c]) cs)"

definition split :: "string \<Rightarrow> string list" where
  "split s = split_from [] s"

text \<open>\<open>sep.join(ws)\<close>\<close>

fun join :: "string \<Rightarrow> string list \<Rightarrow> string" where
  "join sep [] = []"
| "join sep [w] = w"
| "join sep (w # v # ws) = w @ sep @ join sep (v # ws)"

text \<open>\<open>s.rsplit(c, 1)\<close> for a one-character \<open>c\<close>: split at the last \<open>c\<close>, if any.\<close>

definition rsplit1 :: "string \<Rightarrow> char \<Rightarrow> string list" where
  "rsplit1 s c =
     (if c \<in> set s
      then [rev (tl (dropWhile (\<lambda>d. d \<noteq> c) (rev s))), rev (takeWhile (\<lambda>d. d \<noteq> c) (rev s))]
      else [s])"

text \<open>\<open>s.count(c)\<close> for a one-character \<open>c\<close>.\<close>

definition count :: "string \<Rightarrow> char \<Rightarrow> nat" where
  "count s c = length (filter (\<lambda>d. d = c) s)"

subsection \<open>Exceptions and list indexing\<close>

datatype error = ValueError | IndexError | UnboundLocalError

text \<open>\<open>xs[k]\<close>: a negative index counts from the end, an index out of range raises.\<close>

definition index :: "'a list \<Rightarrow> int \<Rightarrow> error + 'a" where
  "index xs k =
     (if 0 \<le> k \<and> k < int (length xs) then Inr (xs ! nat k)
      else if k < 0 \<and> - int (length xs) \<le> k then Inr (xs ! nat (int (length xs) + k))
      else Inl IndexError)"

subsection \<open>Parsing one line of the manifest (lines 69 to 71)\<close>

text \<open>Lines 69 and 70: the commas become spaces when \<open>find\<close> returns more than 0.\<close>

definition normalise :: "string \<Rightarrow> string" where
  "normalise line0 =
     (let line = strip line0
      in if find_str line CHR '','' > 0 then replace line CHR '','' '' '' else line)"

text \<open>
  Line 71: the tuple assignment raises ValueError unless \<open>rsplit\<close> returns two strings.
\<close>

definition parse_line :: "string \<Rightarrow> error + (string \<times> string)" where
  "parse_line line0 =
     (case rsplit1 (join '' '' (split (normalise line0))) CHR '' '' of
        [fname, ftype] \<Rightarrow> Inr (fname, ftype)
      | _ \<Rightarrow> Inl ValueError)"

subsection \<open>The options, the engine and the platform\<close>

text \<open>The keys of the dict \<open>options\<close> that \<open>main\<close> reads.\<close>

record 'n options =
  infile :: string
  outfile :: string
  rejectfile :: string
  spectraPath :: string
  eyecheck :: bool
  sncut :: "'n option"
  useGUI :: bool

text \<open>
  Modelled from the spec: the record \<open>Guess\<close> of the class \<open>Spectrum\<close> (spectrum.py is
  not among the sources). \<open>main\<close> uses \<open>specType\<close> as a list index, so it is an integer
  here; the numbers \<open>subType\<close> and \<open>metal\<close> have the type \<open>'n\<close> of all measured values.
\<close>

record 'n guess =
  specType :: int
  subType :: 'n
  metal :: 'n

text \<open>
  Modelled from the spec: the operations of the class \<open>Spectrum\<close> that \<open>main\<close> calls, as
  functions on the state \<open>'s\<close> of the object; \<open>Spectrum\<close> is the state of a new object
  and \<open>guess\<close> reads the attribute of that name. Each operation returns (the model has
  no exception of the engine).
\<close>

record ('s, 'n) engine =
  Spectrum :: 's
  readFile :: "string \<Rightarrow> string \<Rightarrow> 's \<Rightarrow> (bool \<times> string) \<times> 's"
  calcSN :: "'s \<Rightarrow> 'n \<times> 's"
  normalizeFlux :: "'s \<Rightarrow> 's"
  guessSpecType :: "'s \<Rightarrow> 's"
  findRadialVelocity :: "'s \<Rightarrow> 'n \<times> 's"
  shiftToRest :: "'n \<Rightarrow> 's \<Rightarrow> 's"
  guess :: "'s \<Rightarrow> 'n guess"

text \<open>
  What \<open>main\<close> takes from Python and the operating system: \<open>open(path, 'r')\<close> and
  the iteration over the file (\<open>Inl\<close> is the text of the IOError, \<open>Inr\<close> the lines),
  \<open>str\<close> on a number, \<open>'{:+2.1f}'.format\<close> and \<open>os.path.basename\<close>.
\<close>

record 'n platform =
  open_read :: "string \<Rightarrow> string + string list"
  str :: "'n \<Rightarrow> string"
  format_metal :: "'n \<Rightarrow> string"
  basename :: "string \<Rightarrow> string"

subsection \<open>Effects and the state of \<open>main\<close>\<close>

datatype handle = Infile_h | Outfile_h | Rejectfile_h

datatype 'n event =
    Open handle string
  | Write handle string
  | Close handle
  | Print nat string
  | Notify bool string
  | ReadFile string string
  | CalcSN
  | NormalizeFlux
  | GuessSpecType
  | FindRadialVelocity
  | ShiftToRest 'n
  | Eyecheck
  | Remove string

text \<open>
  The local variables of \<open>main\<close> that change: the object \<open>spec\<close>, the string
  \<open>rejectMessage\<close>, the loop variable \<open>i\<close> (\<open>None\<close> while it is unbound), and the trace.
\<close>

record ('s, 'n) state =
  spec :: 's
  rejectMessage :: string
  i_var :: "nat option"
  trace :: "'n event list"

type_synonym ('s, 'n) result = "(error \<times> ('s, 'n) state) + ('s, 'n) state"

definition emit :: "'n event \<Rightarrow> ('s, 'n) state \<Rightarrow> ('s, 'n) state" where
  "emit ev st = st\<lparr>trace := trace st @ [ev]\<rparr>"

text \<open>\<open>notifyUser(useGUI, message)\<close>: the message is printed or shown in a window.\<close>

definition notifyUser :: "bool \<Rightarrow> string \<Rightarrow> ('s, 'n) state \<Rightarrow> ('s, 'n) state" where
  "notifyUser g message st = emit (Notify g message) st"

subsection \<open>The body of the loop (lines 67 to 136)\<close>

definition outfile_header :: string where
  "outfile_header = ''#Filename,Radial Velocity (km/s),Guessed Spectral Type,Guessed Metallicity,User Spectral Type,User Metallicity'' @ [CHR 0x0A]"

definition rejectfile_header :: string where
  "rejectfile_header = ''#Filename,File Type,Spectra S/N'' @ [CHR 0x0A]"

definition letters :: "string list" where
  "letters = [''O'', ''B'', ''A'', ''F'', ''G'', ''K'', ''M'', ''L'']"

text \<open>The row of the accept file (lines 135 and 136).\<close>

definition accept_row :: "'n platform \<Rightarrow> string \<Rightarrow> 'n \<Rightarrow> string \<Rightarrow> 'n guess \<Rightarrow> string" where
  "accept_row x fname shift letterSpt g =
     fname @ '','' @ str x shift @ '','' @ letterSpt @ str x (subType g) @ '','' @
     format_metal x (metal g) @ '',nan,nan'' @ [CHR 0x0A]"

text \<open>Steps 2 to 7 (lines 101 to 136), for a spectrum that passed both gates.\<close>

definition classify ::
  "('s, 'n) engine \<Rightarrow> 'n platform \<Rightarrow> string \<Rightarrow> ('s, 'n) state \<Rightarrow> ('s, 'n) result" where
  "classify e x fname st =
     (let st = emit NormalizeFlux (st\<lparr>spec := normalizeFlux e (spec st)\<rparr>);
          st = emit GuessSpecType (st\<lparr>spec := guessSpecType e (spec st)\<rparr>);
          (shift, s) = findRadialVelocity e (spec st);
          st = emit FindRadialVelocity (st\<lparr>spec := s\<rparr>);
          st = emit (ShiftToRest shift) (st\<lparr>spec := shiftToRest e shift (spec st)\<rparr>);
          st = emit GuessSpecType (st\<lparr>spec := guessSpecType e (spec st)\<rparr>)
      in case index letters (specType (guess e (spec st))) of
           Inl err \<Rightarrow> Inl (err, st)
         | Inr letterSpt \<Rightarrow>
             Inr (emit (Write Outfile_h (accept_row x fname shift letterSpt (guess e (spec st)))) st))"

text \<open>
  Step 1 (lines 92 to 97): \<open>Inl\<close> is the state after the reject (the \<open>continue\<close>),
  \<open>Inr\<close> the state of a spectrum that goes on.
\<close>

definition quality_gate ::
  "('s, 'n::ord) engine \<Rightarrow> 'n platform \<Rightarrow> 'n options \<Rightarrow> string \<Rightarrow> string \<Rightarrow>
   ('s, 'n) state \<Rightarrow> ('s, 'n) state + ('s, 'n) state" where
  "quality_gate e x opts fname ftype st =
     (case sncut opts of
        None \<Rightarrow> Inr st
      | Some thr \<Rightarrow>
          (let (snVal, s) = calcSN e (spec st);
               st = emit CalcSN (st\<lparr>spec := s\<rparr>)
           in if snVal < thr
              then Inl ((emit (Write Rejectfile_h (fname @ '','' @ ftype @ '','' @ str x snVal @ [CHR 0x0A])) st)
                         \<lparr>rejectMessage := rejectMessage st @ ''FILE: '' @ fname @ ''  REASON: S/N = '' @
                            str x snVal @ '' < '' @ str x thr @ [CHR 0x0A]\<rparr>)
              else Inr st))"

definition body ::
  "('s, 'n::ord) engine \<Rightarrow> 'n platform \<Rightarrow> 'n options \<Rightarrow> nat \<Rightarrow> string \<Rightarrow>
   ('s, 'n) state \<Rightarrow> ('s, 'n) result" where
  "body e x opts i line st0 =
     (let st = st0\<lparr>i_var := Some i\<rparr>
      in case parse_line line of
           Inl err \<Rightarrow> Inl (err, st)
         | Inr (fname, ftype) \<Rightarrow>
             (let st = emit (Print (i + 1) (basename x fname)) st;
                  ((success, message), s) = readFile e (spectraPath opts @ fname) ftype (spec st);
                  st = emit (ReadFile (spectraPath opts @ fname) ftype) (st\<lparr>spec := s\<rparr>)
              in if \<not> success
                 then Inr ((emit (Write Rejectfile_h (fname @ '','' @ ftype @ '',N/A'' @ [CHR 0x0A])) st)
                            \<lparr>rejectMessage := rejectMessage st @ ''FILE: '' @ fname @ ''  REASON: '' @
                               replace message (CHR 0x0A) [] @ [CHR 0x0A]\<rparr>)
                 else case quality_gate e x opts fname ftype st of
                        Inl st \<Rightarrow> Inr st
                      | Inr st \<Rightarrow> classify e x fname st))"

text \<open>\<open>for i, line in enumerate(infile)\<close>: an exception of the body ends the loop.\<close>

fun for_loop ::
  "('s, 'n::ord) engine \<Rightarrow> 'n platform \<Rightarrow> 'n options \<Rightarrow> nat \<Rightarrow> string list \<Rightarrow>
   ('s, 'n) state \<Rightarrow> ('s, 'n) result" where
  "for_loop e x opts i [] st = Inr st"
| "for_loop e x opts i (line # rest) st =
     (case body e x opts i line st of
        Inl r \<Rightarrow> Inl r
      | Inr st \<Rightarrow> for_loop e x opts (Suc i) rest st)"

subsection \<open>\<open>main\<close>\<close>

definition reject_preamble :: string where
  "reject_preamble = ''The following is a list of rejected spectra'' @ [CHR 0x0A] @
     ''along with the reason for its rejection.'' @ [CHR 0x0A, CHR 0x0A]"

text \<open>Lines 157 and 158, and again 165 and 166.\<close>

definition remove_temp :: "'n platform \<Rightarrow> 'n options \<Rightarrow> ('s, 'n) state \<Rightarrow> ('s, 'n) state" where
  "remove_temp x opts st =
     (if take 11 (basename x (infile opts)) = ''temp_input_''
      then emit (Remove (infile opts)) st else st)"

text \<open>Lines 162 to 166: the Reviewer, then the removal of a temporary manifest.\<close>

definition review :: "'n platform \<Rightarrow> 'n options \<Rightarrow> ('s, 'n) state \<Rightarrow> ('s, 'n) state" where
  "review x opts st = remove_temp x opts (emit Eyecheck st)"

text \<open>Lines 139 to 159: after the loop.\<close>

definition finish :: "'n platform \<Rightarrow> 'n options \<Rightarrow> ('s, 'n) state \<Rightarrow> ('s, 'n) result" where
  "finish x opts st0 =
     (let st = emit (Close Rejectfile_h) (emit (Close Outfile_h) (emit (Close Infile_h) st0))
      in if rejectMessage st \<noteq> []
         then (let st = st\<lparr>rejectMessage := reject_preamble @ rejectMessage st\<rparr>;
                   st = notifyUser (useGUI opts) (rejectMessage st) st
               in case i_var st of
                    None \<Rightarrow> Inl (UnboundLocalError, st)
                  | Some i \<Rightarrow>
                      if count (rejectMessage st) (CHR 0x0A) = i + 4
                      then Inr (remove_temp x opts
                             (notifyUser (useGUI opts) ''All spectra were bad. Exiting PyHammer.'' st))
                      else Inr (review x opts st))
         else Inr (review x opts st))"

definition main ::
  "('s, 'n::ord) engine \<Rightarrow> 'n platform \<Rightarrow> 'n options \<Rightarrow> ('s, 'n) result" where
  "main e x opts =
     (let st = \<lparr>spec = Spectrum e, rejectMessage = [], i_var = None, trace = []\<rparr>
      in if \<not> eyecheck opts
         then (case open_read x (infile opts) of
                 Inl msg \<Rightarrow> Inr (notifyUser (useGUI opts) msg st)
               | Inr lines \<Rightarrow>
                   (let st = emit (Open Infile_h (infile opts)) st;
                        st = emit (Open Outfile_h (outfile opts)) st;
                        st = emit (Open Rejectfile_h (rejectfile opts)) st;
                        st = emit (Write Outfile_h outfile_header) st;
                        st = emit (Write Rejectfile_h rejectfile_header) st
                    in case for_loop e x opts 0 lines st of
                         Inl r \<Rightarrow> Inl r
                       | Inr st \<Rightarrow> finish x opts st))
         else Inr (review x opts st))"

subsection \<open>Reading a run\<close>

text \<open>The state in which a run ended, by a return or by an exception.\<close>

definition final_state :: "('s, 'n) result \<Rightarrow> ('s, 'n) state" where
  "final_state r = (case r of Inl (err, st) \<Rightarrow> st | Inr st \<Rightarrow> st)"

text \<open>The strings written to a file, in order.\<close>

fun writes :: "handle \<Rightarrow> 'n event list \<Rightarrow> string list" where
  "writes h [] = []"
| "writes h (Write h' s # evs) = (if h' = h then s # writes h evs else writes h evs)"
| "writes h (ev # evs) = writes h evs"

text \<open>The arguments of the calls of \<open>readFile\<close>, in order.\<close>

fun reads :: "'n event list \<Rightarrow> (string \<times> string) list" where
  "reads [] = []"
| "reads (ReadFile p t # evs) = (p, t) # reads evs"
| "reads (ev # evs) = reads evs"

text \<open>The files that are open after a trace, from the files \<open>opn\<close> open before it.\<close>

fun open_after :: "handle set \<Rightarrow> 'n event list \<Rightarrow> handle set" where
  "open_after opn [] = opn"
| "open_after opn (Open h p # evs) = open_after (insert h opn) evs"
| "open_after opn (Close h # evs) = open_after (opn - {h}) evs"
| "open_after opn (ev # evs) = open_after opn evs"

text \<open>No file is open at any call of the Reviewer.\<close>

fun review_closed :: "handle set \<Rightarrow> 'n event list \<Rightarrow> bool" where
  "review_closed opn [] = True"
| "review_closed opn (Eyecheck # evs) = (opn = {} \<and> review_closed opn evs)"
| "review_closed opn (ev # evs) = review_closed (open_after opn [ev]) evs"

text \<open>
  The events of the loop: no open, close, notification, Reviewer or removal; the engine's
  \<open>calcSN\<close> only with a floor; without a floor, a reject row ends in N/A.
\<close>

fun body_event :: "'n options \<Rightarrow> 'n event \<Rightarrow> bool" where
  "body_event opts (Print n s) = True"
| "body_event opts (ReadFile p t) = True"
| "body_event opts CalcSN = (\<exists>thr. sncut opts = Some thr)"
| "body_event opts NormalizeFlux = True"
| "body_event opts GuessSpecType = True"
| "body_event opts FindRadialVelocity = True"
| "body_event opts (ShiftToRest v) = True"
| "body_event opts (Write h s) =
     (h = Outfile_h \<or>
      h = Rejectfile_h \<and>
        ((\<exists>thr. sncut opts = Some thr) \<or> (\<exists>f t. s = f @ '','' @ t @ '',N/A'' @ [CHR 0x0A])))"
| "body_event opts ev = False"

text \<open>
  The events after the loop: closes, notifications, the Reviewer, the removal.
\<close>

fun finish_event :: "'n event \<Rightarrow> bool" where
  "finish_event (Close h) = True"
| "finish_event (Notify g s) = True"
| "finish_event Eyecheck = True"
| "finish_event (Remove p) = True"
| "finish_event ev = False"

text \<open>The events of \<open>remove_temp\<close>.\<close>

definition removal :: "'n platform \<Rightarrow> 'n options \<Rightarrow> 'n event list" where
  "removal x opts =
     (if take 11 (basename x (infile opts)) = ''temp_input_'' then [Remove (infile opts)] else [])"

text \<open>The five events between the opening of the manifest and the loop.\<close>

definition setup_events :: "'n options \<Rightarrow> 'n event list" where
  "setup_events opts =
     [Open Infile_h (infile opts), Open Outfile_h (outfile opts),
      Open Rejectfile_h (rejectfile opts), Write Outfile_h outfile_header,
      Write Rejectfile_h rejectfile_header]"

text \<open>
  A descriptor is rejected, on the state \<open>s\<close> of the engine: the load fails, or a
  floor is set and the signal-to-noise value of the loaded spectrum is below it.
\<close>

definition rejected ::
  "('s, 'n::ord) engine \<Rightarrow> 'n options \<Rightarrow> string \<Rightarrow> string \<Rightarrow> 's \<Rightarrow> bool" where
  "rejected e opts fname ftype s =
     (case readFile e (spectraPath opts @ fname) ftype s of
        ((success, message), s') \<Rightarrow>
          (if success
           then (case sncut opts of None \<Rightarrow> False | Some thr \<Rightarrow> fst (calcSN e s') < thr)
           else True))"

text \<open>
  The contract of the engine's \<open>Guess\<close>: \<open>specType\<close> is an index of the eight
  letters (Python also takes -8 to -1).
\<close>

definition guess_in_range :: "('s, 'n) engine \<Rightarrow> bool" where
  "guess_in_range e = (\<forall>s. - 8 \<le> specType (guess e s) \<and> specType (guess e s) < 8)"

text \<open>Python prints a number on one line.\<close>

definition str_one_line :: "'n platform \<Rightarrow> bool" where
  "str_one_line x = (\<forall>v. CHR 0x0A \<notin> set (str x v))"

subsection \<open>An engine and a platform to run the model on\<close>

text \<open>
  The state of the engine is the path of the loaded spectrum, whether it is at rest, and
  whether the current guess was made at rest. The signal-to-noise value is the length of
  the path; only the format \<open>obs\<close> loads; the guess is K before the shift and G
  after it.
\<close>

definition demo_engine :: "(string \<times> bool \<times> bool, int) engine" where
  "demo_engine = \<lparr>
     Spectrum = ([], False, False),
     readFile = (\<lambda>path ftype s.
       if ftype = ''obs'' then ((True, []), (path, False, False))
       else ((False, ''unknown'' @ [CHR 0x0A] @ ''format''), s)),
     calcSN = (\<lambda>s. (int (length (fst s)), s)),
     normalizeFlux = (\<lambda>s. s),
     guessSpecType = (\<lambda>s. (fst s, fst (snd s), fst (snd s))),
     findRadialVelocity = (\<lambda>s. (if snd (snd s) then 0 else 7, s)),
     shiftToRest = (\<lambda>v s. (fst s, True, snd (snd s))),
     guess = (\<lambda>s. \<lparr>specType = (if snd (snd s) then 4 else 5), subType = 2, metal = 0\<rparr>) \<rparr>"

definition demo_str :: "int \<Rightarrow> string" where
  "demo_str n =
     (if 0 \<le> n \<and> n < 10 then [''0123456789'' ! nat n]
      else if 10 \<le> n \<and> n < 100
      then [''0123456789'' ! nat (n div 10), ''0123456789'' ! nat (n mod 10)]
      else ''many'')"

definition demo_platform :: "string list \<Rightarrow> int platform" where
  "demo_platform ls = \<lparr>
     open_read = (\<lambda>p. if p = ''list.txt'' then Inr ls else Inl ''No such file''),
     str = demo_str,
     format_metal = (\<lambda>n. ''+'' @ demo_str n @ ''.0''),
     basename = (\<lambda>p. rev (takeWhile (\<lambda>c. c \<noteq> CHR ''/'') (rev p))) \<rparr>"

definition demo_options :: "int option \<Rightarrow> int options" where
  "demo_options c = \<lparr>
     infile = ''list.txt'', outfile = ''out.csv'', rejectfile = ''rej.csv'',
     spectraPath = ''data/'', eyecheck = False, sncut = c, useGUI = False \<rparr>"

text \<open>
  A manifest of three lines: an accepted spectrum, one below a floor of 8, one that
  does not load.
\<close>

definition demo_manifest :: "string list" where
  "demo_manifest =
     [''star0001.fits,obs\<newline>'', ''s2  obs\<newline>'', ''x.fits, bad\<newline>'']"

text \<open>A manifest whose second line has a single token.\<close>

definition demo_short :: "string list" where
  "demo_short = [''a.fits obs\<newline>'', ''star.fits\<newline>'', ''b.fits obs\<newline>'']"

section \<open>Properties\<close>

subsection \<open>The tokens of a line\<close>

lemma isspace_space: "isspace CHR '' ''" and isspace_nl: "isspace (CHR 0x0A)"
  by (simp_all add: isspace_def)

lemma split_from_tokens:
  "\<forall>c\<in>set w0. \<not> isspace c \<Longrightarrow> w \<in> set (split_from w0 s) \<Longrightarrow> w \<noteq> [] \<and> (\<forall>c\<in>set w. \<not> isspace c)"
proof (induction s arbitrary: w0)
  case Nil
  then show ?case by (auto split: if_splits)
next
  case (Cons c cs)
  show ?case
  proof (cases "isspace c")
    case True
    with Cons.prems Cons.IH[of "[]"] show ?thesis by (auto split: if_splits)
  next
    case False
    with Cons.prems Cons.IH[of "w0 @ [c]"] show ?thesis by auto
  qed
qed

lemma split_tokens: "w \<in> set (split s) \<Longrightarrow> w \<noteq> [] \<and> (\<forall>c\<in>set w. \<not> isspace c)"
  unfolding split_def using split_from_tokens[of "[]" w s] by simp

lemma set_join: "set (join sep ws) \<subseteq> set sep \<union> \<Union> (set ` set ws)"
  by (induction sep ws rule: join.induct) auto

lemma join_sep_mem: "2 \<le> length ws \<Longrightarrow> sep \<noteq> [] \<Longrightarrow> set sep \<subseteq> set (join sep ws)"
  by (induction sep ws rule: join.induct) auto

lemma join_space_iff:
  assumes "\<forall>w\<in>set ws. CHR '' '' \<notin> set w"
  shows "(CHR '' '' \<in> set (join '' '' ws)) = (2 \<le> length ws)"
proof (cases ws)
  case Nil
  then show ?thesis by simp
next
  case (Cons w vs)
  show ?thesis
  proof (cases vs)
    case Nil
    with Cons assms show ?thesis by simp
  next
    case (Cons v us)
    with \<open>ws = w # vs\<close> show ?thesis by simp
  qed
qed

lemma rsplit1_mem:
  "c \<in> set s \<Longrightarrow> \<exists>a b. rsplit1 s c = [a, b] \<and> set a \<subseteq> set s \<and> set b \<subseteq> set s"
proof -
  assume "c \<in> set s"
  have a: "set (tl (dropWhile (\<lambda>d. d \<noteq> c) (rev s))) \<subseteq> set s"
    by (metis list.set_sel(2) set_dropWhileD set_rev subsetI tl_Nil)
  have b: "set (takeWhile (\<lambda>d. d \<noteq> c) (rev s)) \<subseteq> set s"
    by (metis set_rev set_takeWhileD subsetI)
  from \<open>c \<in> set s\<close> a b show ?thesis by (simp add: rsplit1_def)
qed

lemma rsplit1_not_mem: "c \<notin> set s \<Longrightarrow> rsplit1 s c = [s]"
  by (simp add: rsplit1_def)

lemma tokens_no_space: "\<forall>w\<in>set (split s). CHR '' '' \<notin> set w"
  using split_tokens isspace_space by blast

lemma parse_line_two:
  assumes "2 \<le> length (split (normalise l))"
  shows "\<exists>fname ftype. parse_line l = Inr (fname, ftype) \<and> CHR 0x0A \<notin> set fname"
proof -
  let ?j = "join '' '' (split (normalise l))"
  have "CHR '' '' \<in> set ?j" using assms join_space_iff[OF tokens_no_space] by simp
  then obtain a b where ab: "rsplit1 ?j CHR '' '' = [a, b]" "set a \<subseteq> set ?j"
    using rsplit1_mem by blast
  have "CHR 0x0A \<notin> set ?j"
  proof
    assume "CHR 0x0A \<in> set ?j"
    then have "CHR 0x0A \<in> set '' '' \<union> \<Union> (set ` set (split (normalise l)))"
      using set_join by blast
    then obtain w where "w \<in> set (split (normalise l))" "CHR 0x0A \<in> set w" by auto
    then show False using split_tokens isspace_nl by blast
  qed
  with ab show ?thesis by (auto simp: parse_line_def)
qed

lemma parse_line_few:
  assumes "\<not> 2 \<le> length (split (normalise l))"
  shows "parse_line l = Inl ValueError"
proof -
  let ?j = "join '' '' (split (normalise l))"
  have "CHR '' '' \<notin> set ?j" using assms join_space_iff[OF tokens_no_space] by simp
  then show ?thesis by (simp add: parse_line_def rsplit1_not_mem)
qed

subsection \<open>One pass of the loop body\<close>

lemma body_parse_error:
  "parse_line line = Inl err \<Longrightarrow> body e x opts i line st = Inl (err, st\<lparr>i_var := Some i\<rparr>)"
  by (simp add: body_def)

lemma body_load_failure:
  assumes "parse_line line = Inr (fname, ftype)"
    and "readFile e (spectraPath opts @ fname) ftype (spec st) = ((False, message), s)"
  shows "body e x opts i line st =
    Inr (st\<lparr>spec := s,
            rejectMessage := rejectMessage st @ ''FILE: '' @ fname @ ''  REASON: '' @
              replace message (CHR 0x0A) [] @ [CHR 0x0A],
            i_var := Some i,
            trace := trace st @
              [Print (i + 1) (basename x fname), ReadFile (spectraPath opts @ fname) ftype,
               Write Rejectfile_h (fname @ '','' @ ftype @ '',N/A'' @ [CHR 0x0A])]\<rparr>)"
  using assms by (simp add: body_def emit_def)

lemma body_low_sn:
  assumes "parse_line line = Inr (fname, ftype)"
    and "readFile e (spectraPath opts @ fname) ftype (spec st) = ((True, message), s)"
    and "sncut opts = Some thr"
    and "calcSN e s = (snVal, s')"
    and "snVal < thr"
  shows "body e x opts i line st =
    Inr (st\<lparr>spec := s',
            rejectMessage := rejectMessage st @ ''FILE: '' @ fname @ ''  REASON: S/N = '' @
              str x snVal @ '' < '' @ str x thr @ [CHR 0x0A],
            i_var := Some i,
            trace := trace st @
              [Print (i + 1) (basename x fname), ReadFile (spectraPath opts @ fname) ftype, CalcSN,
               Write Rejectfile_h (fname @ '','' @ ftype @ '','' @ str x snVal @ [CHR 0x0A])]\<rparr>)"
  using assms by (simp add: body_def quality_gate_def emit_def)

lemma body_pass_floor:
  assumes "parse_line line = Inr (fname, ftype)"
    and "readFile e (spectraPath opts @ fname) ftype (spec st) = ((True, message), s)"
    and "sncut opts = Some thr"
    and "calcSN e s = (snVal, s')"
    and "\<not> snVal < thr"
  shows "body e x opts i line st =
    classify e x fname (st\<lparr>i_var := Some i, spec := s',
      trace := trace st @
        [Print (i + 1) (basename x fname), ReadFile (spectraPath opts @ fname) ftype, CalcSN]\<rparr>)"
  using assms by (simp add: body_def quality_gate_def emit_def)

lemma body_pass_no_floor:
  assumes "parse_line line = Inr (fname, ftype)"
    and "readFile e (spectraPath opts @ fname) ftype (spec st) = ((True, message), s)"
    and "sncut opts = None"
  shows "body e x opts i line st =
    classify e x fname (st\<lparr>i_var := Some i, spec := s,
      trace := trace st @
        [Print (i + 1) (basename x fname), ReadFile (spectraPath opts @ fname) ftype]\<rparr>)"
  using assms by (simp add: body_def quality_gate_def emit_def)

lemma classify_accept:
  assumes "findRadialVelocity e (guessSpecType e (normalizeFlux e (spec st))) = (shift, s3)"
    and "guessSpecType e (shiftToRest e shift s3) = s5"
    and "index letters (specType (guess e s5)) = Inr letterSpt"
  shows "classify e x fname st =
    Inr (st\<lparr>spec := s5,
            trace := trace st @
              [NormalizeFlux, GuessSpecType, FindRadialVelocity, ShiftToRest shift, GuessSpecType,
               Write Outfile_h (accept_row x fname shift letterSpt (guess e s5))]\<rparr>)"
  using assms by (simp add: classify_def emit_def)

lemma classify_index_error:
  assumes "findRadialVelocity e (guessSpecType e (normalizeFlux e (spec st))) = (shift, s3)"
    and "guessSpecType e (shiftToRest e shift s3) = s5"
    and "index letters (specType (guess e s5)) = Inl err"
  shows "classify e x fname st =
    Inl (err, st\<lparr>spec := s5,
            trace := trace st @
              [NormalizeFlux, GuessSpecType, FindRadialVelocity, ShiftToRest shift, GuessSpecType]\<rparr>)"
  using assms by (simp add: classify_def emit_def)

lemma index_letters:
  "guess_in_range e \<Longrightarrow> \<exists>l. index letters (specType (guess e s)) = Inr l"
  by (simp add: guess_in_range_def index_def letters_def)

lemma index_letters_error: "index letters k = Inl err \<Longrightarrow> err = IndexError"
  by (auto simp: index_def split: if_splits)

lemma writes_append: "writes h (evs @ evs') = writes h evs @ writes h evs'"
  by (induction h evs rule: writes.induct) auto

lemma body_event_na:
  "body_event opts (Write Rejectfile_h (f @ '','' @ t @ '',N/A'' @ [CHR 0x0A]))"
  by simp blast

lemma classify_events:
  "\<exists>evs. trace (final_state (classify e x fname st)) = trace st @ evs \<and>
     list_all (body_event opts) evs"
proof -
  obtain shift s3 where fr:
    "findRadialVelocity e (guessSpecType e (normalizeFlux e (spec st))) = (shift, s3)"
    by (metis surj_pair)
  show ?thesis
  proof (cases "index letters (specType (guess e (guessSpecType e (shiftToRest e shift s3))))")
    case (Inl err)
    then show ?thesis
      by (simp add: classify_index_error[OF fr refl Inl] final_state_def)
  next
    case (Inr l)
    then show ?thesis
      by (simp add: classify_accept[OF fr refl Inr] final_state_def)
  qed
qed

lemma reads_append: "reads (evs @ evs') = reads evs @ reads evs'"
  by (induction evs rule: reads.induct) auto

lemma body_events:
  "\<exists>evs. trace (final_state (body e x opts i line st)) = trace st @ evs \<and>
     list_all (body_event opts) evs"
proof (cases "parse_line line")
  case (Inl err)
  then show ?thesis by (simp add: body_parse_error final_state_def)
next
  case (Inr p)
  obtain fname ftype where p: "p = (fname, ftype)" by (cases p)
  obtain success message s where
    rd: "readFile e (spectraPath opts @ fname) ftype (spec st) = ((success, message), s)"
    by (metis surj_pair)
  show ?thesis
  proof (cases success)
    case False
    have "body_event opts (Write Rejectfile_h (fname @ '','' @ ftype @ '',N/A'' @ [CHR 0x0A]))"
      by (rule body_event_na)
    with False Inr p rd show ?thesis by (simp add: body_load_failure final_state_def)
  next
    case True
    note cl = classify_events[of e x fname _ opts]
    show ?thesis
    proof (cases "sncut opts")
      case None
      from cl[of "st\<lparr>i_var := Some i, spec := s,
        trace := trace st @
          [Print (i + 1) (basename x fname), ReadFile (spectraPath opts @ fname) ftype]\<rparr>"]
      obtain evs where "trace (final_state (body e x opts i line st)) =
          (trace st @ [Print (i + 1) (basename x fname), ReadFile (spectraPath opts @ fname) ftype]) @ evs"
        "list_all (body_event opts) evs"
        using Inr p rd True None by (auto simp: body_pass_no_floor)
      then show ?thesis by simp
    next
      case (Some thr)
      obtain snVal s' where sn: "calcSN e s = (snVal, s')" by (metis surj_pair)
      show ?thesis
      proof (cases "snVal < thr")
        case True
        with Inr p rd \<open>success\<close> Some sn show ?thesis
          by (simp add: body_low_sn final_state_def)
      next
        case False
        from cl[of "st\<lparr>i_var := Some i, spec := s',
          trace := trace st @
            [Print (i + 1) (basename x fname), ReadFile (spectraPath opts @ fname) ftype, CalcSN]\<rparr>"]
        obtain evs where "trace (final_state (body e x opts i line st)) =
            (trace st @ [Print (i + 1) (basename x fname),
               ReadFile (spectraPath opts @ fname) ftype, CalcSN]) @ evs"
          "list_all (body_event opts) evs"
          using Inr p rd \<open>success\<close> Some sn False by (auto simp: body_pass_floor)
        then show ?thesis using Some by simp
      qed
    qed
  qed
qed

lemma for_loop_events:
  "\<exists>evs. trace (final_state (for_loop e x opts i lines st)) = trace st @ evs \<and>
     list_all (body_event opts) evs"
proof (induction lines arbitrary: i st)
  case Nil
  show ?case by (simp add: final_state_def)
next
  case (Cons line rest)
  obtain evs where b: "trace (final_state (body e x opts i line st)) = trace st @ evs"
    "list_all (body_event opts) evs"
    using body_events by blast
  show ?case
  proof (cases "body e x opts i line st")
    case (Inl r)
    with b show ?thesis by (auto simp: final_state_def)
  next
    case (Inr st')
    with b have t: "trace st' = trace st @ evs" by (simp add: final_state_def)
    from Cons.IH[of "Suc i" st'] obtain evs' where
      "trace (final_state (for_loop e x opts (Suc i) rest st')) = trace st' @ evs'"
      "list_all (body_event opts) evs'" by blast
    with t b(2) Inr show ?thesis by auto
  qed
qed

subsection \<open>The rows and the narrative of a loop\<close>

lemma parse_line_fname:
  assumes "parse_line l = Inr (fname, ftype)"
  shows "CHR 0x0A \<notin> set fname"
proof (cases "2 \<le> length (split (normalise l))")
  case True
  from parse_line_two[OF True] assms show ?thesis by auto
next
  case False
  from parse_line_few[OF False] assms show ?thesis by simp
qed

lemma count_append: "count (s @ t) c = count s c + count t c"
  by (simp add: count_def)

lemma count_none: "c \<notin> set s \<Longrightarrow> count s c = 0"
  by (induction s) (auto simp: count_def)

lemma replace_removes: "c \<notin> set (replace s c [])"
  by (induction s) (auto simp: replace_def)

lemma count_preamble: "count reject_preamble (CHR 0x0A) = 3"
  by (simp add: reject_preamble_def count_def)

lemma body_step:
  assumes p: "parse_line line = Inr (fname, ftype)" and g: "guess_in_range e"
  shows "\<exists>st'. body e x opts i line st = Inr st' \<and> i_var st' = Some i \<and>
     reads (trace st') = reads (trace st) @ [(spectraPath opts @ fname, ftype)] \<and>
     (if rejected e opts fname ftype (spec st)
      then writes Outfile_h (trace st') = writes Outfile_h (trace st) \<and>
           (\<exists>row. writes Rejectfile_h (trace st') = writes Rejectfile_h (trace st) @ [row]) \<and>
           (\<exists>entry. rejectMessage st' = rejectMessage st @ entry @ [CHR 0x0A] \<and>
              (str_one_line x \<longrightarrow> CHR 0x0A \<notin> set entry))
      else (\<exists>row. writes Outfile_h (trace st') = writes Outfile_h (trace st) @ [row]) \<and>
           writes Rejectfile_h (trace st') = writes Rejectfile_h (trace st) \<and>
           rejectMessage st' = rejectMessage st)"
proof -
  obtain success message s where
    rd: "readFile e (spectraPath opts @ fname) ftype (spec st) = ((success, message), s)"
    by (metis surj_pair)
  note nl = parse_line_fname[OF p]
  have cl: "\<exists>st' row. classify e x fname st0 = Inr st' \<and> i_var st' = i_var st0 \<and>
      reads (trace st') = reads (trace st0) \<and>
      rejectMessage st' = rejectMessage st0 \<and>
      writes Outfile_h (trace st') = writes Outfile_h (trace st0) @ [row] \<and>
      writes Rejectfile_h (trace st') = writes Rejectfile_h (trace st0)" for st0
  proof -
    obtain shift s3 where fr:
      "findRadialVelocity e (guessSpecType e (normalizeFlux e (spec st0))) = (shift, s3)"
      by (metis surj_pair)
    from index_letters[OF g] obtain l where
      l: "index letters (specType (guess e (guessSpecType e (shiftToRest e shift s3)))) = Inr l"
      by blast
    show ?thesis by (simp add: classify_accept[OF fr refl l] writes_append reads_append)
  qed
  show ?thesis
  proof (cases success)
    case False
    with rd have r: "rejected e opts fname ftype (spec st)" by (simp add: rejected_def)
    have "CHR 0x0A \<notin> set (''FILE: '' @ fname @ ''  REASON: '' @ replace message (CHR 0x0A) [])"
      using nl replace_removes[of "CHR 0x0A" message] by simp
    then have "\<exists>entry. rejectMessage st @ ''FILE: '' @ fname @ ''  REASON: '' @
        replace message (CHR 0x0A) [] @ [CHR 0x0A] = rejectMessage st @ entry @ [CHR 0x0A] \<and>
        (str_one_line x \<longrightarrow> CHR 0x0A \<notin> set entry)"
      by (intro exI[of _ "''FILE: '' @ fname @ ''  REASON: '' @ replace message (CHR 0x0A) []"]) simp
    with r False rd p show ?thesis
      by (simp add: body_load_failure writes_append reads_append)
  next
    case True
    show ?thesis
    proof (cases "sncut opts")
      case None
      with rd True have r: "\<not> rejected e opts fname ftype (spec st)" by (simp add: rejected_def)
      from cl[of "st\<lparr>i_var := Some i, spec := s,
        trace := trace st @
          [Print (i + 1) (basename x fname), ReadFile (spectraPath opts @ fname) ftype]\<rparr>"]
      show ?thesis using r rd True None p
        by (auto simp: body_pass_no_floor writes_append reads_append)
    next
      case (Some thr)
      obtain snVal s' where sn: "calcSN e s = (snVal, s')" by (metis surj_pair)
      show ?thesis
      proof (cases "snVal < thr")
        case low: True
        with rd True Some sn have r: "rejected e opts fname ftype (spec st)"
          by (simp add: rejected_def)
        have "str_one_line x \<longrightarrow> CHR 0x0A \<notin> set (''FILE: '' @ fname @ ''  REASON: S/N = '' @
            str x snVal @ '' < '' @ str x thr)"
          using nl by (simp add: str_one_line_def)
        then have "\<exists>entry. rejectMessage st @ ''FILE: '' @ fname @ ''  REASON: S/N = '' @
            str x snVal @ '' < '' @ str x thr @ [CHR 0x0A] = rejectMessage st @ entry @ [CHR 0x0A] \<and>
            (str_one_line x \<longrightarrow> CHR 0x0A \<notin> set entry)"
          by (intro exI[of _ "''FILE: '' @ fname @ ''  REASON: S/N = '' @
            str x snVal @ '' < '' @ str x thr"]) simp
        with r rd True Some sn low p show ?thesis
          by (simp add: body_low_sn writes_append reads_append)
      next
        case False
        with rd True Some sn have r: "\<not> rejected e opts fname ftype (spec st)"
          by (simp add: rejected_def)
        from cl[of "st\<lparr>i_var := Some i, spec := s',
          trace := trace st @
            [Print (i + 1) (basename x fname), ReadFile (spectraPath opts @ fname) ftype, CalcSN]\<rparr>"]
        show ?thesis using r rd True Some sn False p
          by (auto simp: body_pass_floor writes_append reads_append)
      qed
    qed
  qed
qed

lemma for_loop_rows:
  assumes "\<forall>l\<in>set lines. 2 \<le> length (split (normalise l))" and g: "guess_in_range e"
  shows "\<exists>st' acc rej. for_loop e x opts i lines st = Inr st' \<and>
     writes Outfile_h (trace st') = writes Outfile_h (trace st) @ acc \<and>
     writes Rejectfile_h (trace st') = writes Rejectfile_h (trace st) @ rej \<and>
     length acc + length rej = length lines \<and>
     length (reads (trace st')) = length (reads (trace st)) + length lines \<and>
     i_var st' = (if lines = [] then i_var st else Some (i + length lines - 1)) \<and>
     (rej = [] \<longrightarrow> rejectMessage st' = rejectMessage st) \<and>
     count (rejectMessage st) (CHR 0x0A) + length rej \<le> count (rejectMessage st') (CHR 0x0A) \<and>
     (str_one_line x \<longrightarrow>
        count (rejectMessage st') (CHR 0x0A) = count (rejectMessage st) (CHR 0x0A) + length rej)"
  using assms(1)
proof (induction lines arbitrary: i st)
  case Nil
  show ?case by simp
next
  case (Cons line rest)
  from Cons.prems have "2 \<le> length (split (normalise line))" by simp
  from parse_line_two[OF this] obtain fname ftype where p: "parse_line line = Inr (fname, ftype)"
    by blast
  from body_step[OF p g, of x opts i st] obtain st1 where
    b: "body e x opts i line st = Inr st1" "i_var st1 = Some i"
       "reads (trace st1) = reads (trace st) @ [(spectraPath opts @ fname, ftype)]" and
    c: "if rejected e opts fname ftype (spec st)
      then writes Outfile_h (trace st1) = writes Outfile_h (trace st) \<and>
           (\<exists>row. writes Rejectfile_h (trace st1) = writes Rejectfile_h (trace st) @ [row]) \<and>
           (\<exists>entry. rejectMessage st1 = rejectMessage st @ entry @ [CHR 0x0A] \<and>
              (str_one_line x \<longrightarrow> CHR 0x0A \<notin> set entry))
      else (\<exists>row. writes Outfile_h (trace st1) = writes Outfile_h (trace st) @ [row]) \<and>
           writes Rejectfile_h (trace st1) = writes Rejectfile_h (trace st) \<and>
           rejectMessage st1 = rejectMessage st"
    by blast
  from Cons.prems have "\<forall>l\<in>set rest. 2 \<le> length (split (normalise l))" by simp
  from Cons.IH[OF this, of "Suc i" st1] obtain st' acc rej where
    ih: "for_loop e x opts (Suc i) rest st1 = Inr st'"
      "writes Outfile_h (trace st') = writes Outfile_h (trace st1) @ acc"
      "writes Rejectfile_h (trace st') = writes Rejectfile_h (trace st1) @ rej"
      "length acc + length rej = length rest"
      "i_var st' = (if rest = [] then i_var st1 else Some (Suc i + length rest - 1))"
      "length (reads (trace st')) = length (reads (trace st1)) + length rest"
      "rej = [] \<longrightarrow> rejectMessage st' = rejectMessage st1"
      "count (rejectMessage st1) (CHR 0x0A) + length rej \<le> count (rejectMessage st') (CHR 0x0A)"
      "str_one_line x \<longrightarrow>
        count (rejectMessage st') (CHR 0x0A) = count (rejectMessage st1) (CHR 0x0A) + length rej"
    by blast
  have iv: "i_var st' = Some (i + length (line # rest) - 1)"
    using ih(5) b(2) by (cases rest) auto
  have rd: "length (reads (trace st')) = length (reads (trace st)) + length (line # rest)"
    using ih(6) b(3) by simp
  show ?case
  proof (cases "rejected e opts fname ftype (spec st)")
    case True
    with c obtain row entry where
      r: "writes Outfile_h (trace st1) = writes Outfile_h (trace st)"
         "writes Rejectfile_h (trace st1) = writes Rejectfile_h (trace st) @ [row]"
         "rejectMessage st1 = rejectMessage st @ entry @ [CHR 0x0A]"
         "str_one_line x \<longrightarrow> CHR 0x0A \<notin> set entry"
      by auto
    have c1: "count (rejectMessage st) (CHR 0x0A) + 1 \<le> count (rejectMessage st1) (CHR 0x0A)"
      using r(3) by (simp add: count_append count_def)
    have c2: "str_one_line x \<longrightarrow>
        count (rejectMessage st1) (CHR 0x0A) = count (rejectMessage st) (CHR 0x0A) + 1"
      using r(3,4) by (auto simp: count_append count_none) (simp add: count_def)
    show ?thesis
      apply (rule exI[of _ st'], rule exI[of _ acc], rule exI[of _ "row # rej"])
      using b(1) ih(1-4,7-9) r(1,2) iv rd c1 c2 by auto
  next
    case False
    with c obtain row where
      r: "writes Outfile_h (trace st1) = writes Outfile_h (trace st) @ [row]"
         "writes Rejectfile_h (trace st1) = writes Rejectfile_h (trace st)"
         "rejectMessage st1 = rejectMessage st"
      by auto
    show ?thesis
      apply (rule exI[of _ st'], rule exI[of _ "row # acc"], rule exI[of _ rej])
      using b(1) ih(1-4,7-9) r iv rd by auto
  qed
qed

subsection \<open>After the loop\<close>

lemma finish_returns:
  assumes "rejectMessage st \<noteq> [] \<longrightarrow> i_var st = Some i"
  shows "finish x opts st =
    Inr (st\<lparr>rejectMessage :=
              (if rejectMessage st = [] then [] else reject_preamble @ rejectMessage st),
            trace := trace st @ [Close Infile_h, Close Outfile_h, Close Rejectfile_h] @
              (if rejectMessage st = [] then Eyecheck # removal x opts
               else Notify (useGUI opts) (reject_preamble @ rejectMessage st) #
                 (if count (reject_preamble @ rejectMessage st) (CHR 0x0A) = i + 4
                  then Notify (useGUI opts) ''All spectra were bad. Exiting PyHammer.'' #
                    removal x opts
                  else Eyecheck # removal x opts))\<rparr>)"
  using assms
  by (auto simp: finish_def review_def remove_temp_def notifyUser_def emit_def removal_def Let_def)

lemma finish_events:
  "\<exists>evs. trace (final_state (finish x opts st)) = trace st @ evs \<and> list_all finish_event evs"
  by (auto simp: finish_def review_def remove_temp_def notifyUser_def emit_def Let_def
      final_state_def split: option.splits)

lemma main_open_failure:
  assumes "\<not> eyecheck opts" and "open_read x (infile opts) = Inl msg"
  shows "main e x opts =
    Inr \<lparr>spec = Spectrum e, rejectMessage = [], i_var = None, trace = [Notify (useGUI opts) msg]\<rparr>"
  using assms by (simp add: main_def notifyUser_def emit_def)

lemma main_skip:
  assumes "eyecheck opts"
  shows "main e x opts =
    Inr \<lparr>spec = Spectrum e, rejectMessage = [], i_var = None, trace = Eyecheck # removal x opts\<rparr>"
  using assms by (simp add: main_def review_def remove_temp_def emit_def removal_def)

lemma main_batch:
  assumes "\<not> eyecheck opts" and "open_read x (infile opts) = Inr lines"
  shows "main e x opts =
    (case for_loop e x opts 0 lines
        \<lparr>spec = Spectrum e, rejectMessage = [], i_var = None, trace = setup_events opts\<rparr> of
       Inl r \<Rightarrow> Inl r
     | Inr st \<Rightarrow> finish x opts st)"
  using assms by (simp add: main_def emit_def setup_events_def)

lemma writes_setup:
  "writes Outfile_h (setup_events opts) = [outfile_header]"
  "writes Rejectfile_h (setup_events opts) = [rejectfile_header]"
  by (simp_all add: setup_events_def)

lemma main_loop_summary:
  assumes ne: "\<not> eyecheck opts" and op: "open_read x (infile opts) = Inr lines"
    and two: "\<forall>l\<in>set lines. 2 \<le> length (split (normalise l))" and g: "guess_in_range e"
  shows "\<exists>st' evs. main e x opts = finish x opts st' \<and>
     trace st' = setup_events opts @ evs \<and>
     list_all (body_event opts) evs \<and>
     length (writes Outfile_h evs) + length (writes Rejectfile_h evs) = length lines \<and>
     i_var st' = (if lines = [] then None else Some (length lines - 1)) \<and>
     (writes Rejectfile_h evs = [] \<longrightarrow> rejectMessage st' = []) \<and>
     length (writes Rejectfile_h evs) \<le> count (rejectMessage st') (CHR 0x0A) \<and>
     (str_one_line x \<longrightarrow>
        count (rejectMessage st') (CHR 0x0A) = length (writes Rejectfile_h evs))"
proof -
  let ?st0 = "\<lparr>spec = Spectrum e, rejectMessage = [], i_var = None, trace = setup_events opts\<rparr>"
  from for_loop_rows[OF two g, of x opts 0 ?st0] obtain st' acc rej where
    r: "for_loop e x opts 0 lines ?st0 = Inr st'"
       "writes Outfile_h (trace st') = writes Outfile_h (trace ?st0) @ acc"
       "writes Rejectfile_h (trace st') = writes Rejectfile_h (trace ?st0) @ rej"
       "length acc + length rej = length lines"
       "length (reads (trace st')) = length (reads (trace ?st0)) + length lines"
       "i_var st' = (if lines = [] then i_var ?st0 else Some (0 + length lines - 1))"
       "rej = [] \<longrightarrow> rejectMessage st' = rejectMessage ?st0"
       "count (rejectMessage ?st0) (CHR 0x0A) + length rej \<le> count (rejectMessage st') (CHR 0x0A)"
       "str_one_line x \<longrightarrow>
          count (rejectMessage st') (CHR 0x0A) = count (rejectMessage ?st0) (CHR 0x0A) + length rej"
    by blast
  from for_loop_events[of e x opts 0 lines ?st0] r(1) obtain evs where
    ev: "trace st' = setup_events opts @ evs" "list_all (body_event opts) evs"
    by (auto simp: final_state_def)
  from r(2,3) ev(1) have w: "writes Outfile_h evs = acc" "writes Rejectfile_h evs = rej"
    by (simp_all add: writes_append)
  have m: "main e x opts = finish x opts st'"
    using main_batch[OF ne op, of e] r(1) by simp
  show ?thesis
    apply (rule exI[of _ st'], rule exI[of _ evs])
    using m ev w r(4,6-9) by (simp add: count_def)
qed

lemma parse_demo:
  "parse_line ''s2  obs\<newline>'' = Inr (''s2'', ''obs'')"
  "parse_line ''star0001.fits,obs\<newline>'' = Inr (''star0001.fits'', ''obs'')"
  "parse_line ''x.fits, bad\<newline>'' = Inr (''x.fits'', ''bad'')"
  by (simp_all add: parse_line_def normalise_def strip_def isspace_def find_str_def replace_def
      split_def rsplit1_def)

subsection \<open>A whole run\<close>

lemma writes_removal: "writes h (removal x opts) = []"
  by (simp add: removal_def)

lemma main_returns:
  assumes ne: "\<not> eyecheck opts" and op: "open_read x (infile opts) = Inr lines"
    and two: "\<forall>l\<in>set lines. 2 \<le> length (split (normalise l))" and g: "guess_in_range e"
  shows "\<exists>st evs. main e x opts = Inr st \<and>
     trace st = setup_events opts @ evs @ [Close Infile_h, Close Outfile_h, Close Rejectfile_h] @
       (if writes Rejectfile_h evs = [] then Eyecheck # removal x opts
        else Notify (useGUI opts) (rejectMessage st) #
          (if count (rejectMessage st) (CHR 0x0A) = length lines + 3
           then Notify (useGUI opts) ''All spectra were bad. Exiting PyHammer.'' # removal x opts
           else Eyecheck # removal x opts)) \<and>
     list_all (body_event opts) evs \<and>
     length (writes Outfile_h evs) + length (writes Rejectfile_h evs) = length lines \<and>
     i_var st = (if lines = [] then None else Some (length lines - 1)) \<and>
     (writes Rejectfile_h evs = [] \<longrightarrow> rejectMessage st = []) \<and>
     (str_one_line x \<longrightarrow> writes Rejectfile_h evs \<noteq> [] \<longrightarrow>
        count (rejectMessage st) (CHR 0x0A) = length (writes Rejectfile_h evs) + 3)"
proof -
  from main_loop_summary[OF ne op two g] obtain st' evs where
    s: "main e x opts = finish x opts st'"
       "trace st' = setup_events opts @ evs"
       "list_all (body_event opts) evs"
       "length (writes Outfile_h evs) + length (writes Rejectfile_h evs) = length lines"
       "i_var st' = (if lines = [] then None else Some (length lines - 1))"
       "writes Rejectfile_h evs = [] \<longrightarrow> rejectMessage st' = []"
       "length (writes Rejectfile_h evs) \<le> count (rejectMessage st') (CHR 0x0A)"
       "str_one_line x \<longrightarrow>
          count (rejectMessage st') (CHR 0x0A) = length (writes Rejectfile_h evs)"
    by blast
  have e1: "(rejectMessage st' = []) = (writes Rejectfile_h evs = [])"
  proof
    assume "rejectMessage st' = []"
    then have "count (rejectMessage st') (CHR 0x0A) = 0" by (simp add: count_def)
    with s(7) show "writes Rejectfile_h evs = []" by simp
  next
    assume "writes Rejectfile_h evs = []"
    with s(6) show "rejectMessage st' = []" by simp
  qed
  have ne_lines: "writes Rejectfile_h evs \<noteq> [] \<Longrightarrow> lines \<noteq> []"
    using s(4) by auto
  have iv: "rejectMessage st' \<noteq> [] \<longrightarrow> i_var st' = Some (length lines - 1)"
    using e1 ne_lines s(5) by simp
  have i4: "lines \<noteq> [] \<Longrightarrow> length lines - 1 + 4 = length lines + 3"
    by (cases lines) simp_all
  show ?thesis
    apply (rule exI[of _ "st'\<lparr>rejectMessage :=
              (if rejectMessage st' = [] then [] else reject_preamble @ rejectMessage st'),
            trace := trace st' @ [Close Infile_h, Close Outfile_h, Close Rejectfile_h] @
              (if rejectMessage st' = [] then Eyecheck # removal x opts
               else Notify (useGUI opts) (reject_preamble @ rejectMessage st') #
                 (if count (reject_preamble @ rejectMessage st') (CHR 0x0A) = length lines - 1 + 4
                  then Notify (useGUI opts) ''All spectra were bad. Exiting PyHammer.'' #
                    removal x opts
                  else Eyecheck # removal x opts))\<rparr>"])
    apply (rule exI[of _ evs])
    using s(1-5,8) e1 ne_lines i4 finish_returns[OF iv, of x opts]
    by (auto simp: count_append count_preamble)
qed

lemma finish_Inr:
  assumes "finish x opts st = Inr st'"
  shows "\<exists>tail. trace st' = trace st @ [Close Infile_h, Close Outfile_h, Close Rejectfile_h] @ tail \<and>
     ((\<exists>g m. tail = Eyecheck # removal x opts \<or> tail = Notify g m # Eyecheck # removal x opts) \<or>
      (\<exists>g m m'. tail = Notify g m # Notify g m' # removal x opts))"
  using assms
  by (auto simp: finish_def review_def remove_temp_def notifyUser_def emit_def Let_def removal_def
      split: option.splits if_splits)

lemma main_events:
  "\<exists>pre evs fevs. trace (final_state (main e x opts)) = pre @ evs @ fevs \<and>
     (pre = [] \<or> pre = setup_events opts) \<and>
     list_all (body_event opts) evs \<and> list_all finish_event fevs"
proof (cases "eyecheck opts")
  case True
  show ?thesis
    apply (rule exI[of _ "[]"], rule exI[of _ "[]"], rule exI[of _ "Eyecheck # removal x opts"])
    by (simp add: main_skip[OF True] final_state_def removal_def)
next
  case False
  show ?thesis
  proof (cases "open_read x (infile opts)")
    case (Inl msg)
    show ?thesis
      apply (rule exI[of _ "[]"], rule exI[of _ "[]"], rule exI[of _ "[Notify (useGUI opts) msg]"])
      by (simp add: main_open_failure[OF False Inl] final_state_def)
  next
    case (Inr lines)
    let ?st0 = "\<lparr>spec = Spectrum e, rejectMessage = [], i_var = None, trace = setup_events opts\<rparr>"
    from for_loop_events[of e x opts 0 lines ?st0] obtain evs where
      ev: "trace (final_state (for_loop e x opts 0 lines ?st0)) = setup_events opts @ evs"
          "list_all (body_event opts) evs"
      by auto
    show ?thesis
    proof (cases "for_loop e x opts 0 lines ?st0")
      case (Inl r)
      then have "trace (final_state (main e x opts)) = setup_events opts @ evs @ []"
        using ev(1) by (simp add: main_batch[OF False Inr] final_state_def)
      with ev(2) show ?thesis
        apply (rule_tac x = "setup_events opts" in exI, rule_tac x = evs in exI,
            rule_tac x = "[]" in exI)
        by simp
    next
      case (Inr st')
      from finish_events[of x opts st'] obtain fevs where
        f: "trace (final_state (finish x opts st')) = trace st' @ fevs" "list_all finish_event fevs"
        by blast
      from Inr ev(1) have "trace st' = setup_events opts @ evs" by (simp add: final_state_def)
      with f(1) Inr have "trace (final_state (main e x opts)) = setup_events opts @ evs @ fevs"
        by (simp add: main_batch[OF False \<open>open_read x (infile opts) = Inr lines\<close>])
      with ev(2) f(2) show ?thesis by blast
    qed
  qed
qed

lemma demo_two_tokens: "\<forall>l\<in>set demo_manifest. 2 \<le> length (split (normalise l))"
  by (simp add: demo_manifest_def normalise_def strip_def isspace_def find_str_def replace_def
      split_def)

lemma demo_guess: "guess_in_range demo_engine"
  by (simp add: guess_in_range_def demo_engine_def)

subsection \<open>Files and events of a run\<close>

lemma open_after_append: "open_after opn (evs @ evs') = open_after (open_after opn evs) evs'"
  by (induction opn evs rule: open_after.induct) auto

lemma review_closed_append:
  "review_closed opn (evs @ evs') =
     (review_closed opn evs \<and> review_closed (open_after opn evs) evs')"
  by (induction opn evs rule: review_closed.induct) auto

lemma body_events_files:
  "list_all (body_event opts) evs \<Longrightarrow> open_after opn evs = opn \<and> review_closed opn evs"
proof (induction evs)
  case Nil
  show ?case by simp
next
  case (Cons ev evs)
  then show ?case by (cases ev) auto
qed

lemma body_events_no_review: "list_all (body_event opts) evs \<Longrightarrow> Eyecheck \<notin> set evs"
proof (induction evs)
  case Nil
  show ?case by simp
next
  case (Cons ev evs)
  then show ?case by (cases ev) auto
qed

lemma body_events_no_floor:
  "list_all (body_event opts) evs \<Longrightarrow> sncut opts = None \<Longrightarrow>
     CalcSN \<notin> set evs \<and>
     (\<forall>row\<in>set (writes Rejectfile_h evs). \<exists>f t. row = f @ '','' @ t @ '',N/A'' @ [CHR 0x0A])"
proof (induction evs)
  case Nil
  show ?case by simp
next
  case (Cons ev evs)
  then show ?case by (cases ev) auto
qed

lemma finish_events_quiet:
  "list_all finish_event evs \<Longrightarrow> CalcSN \<notin> set evs \<and> writes h evs = []"
proof (induction evs)
  case Nil
  show ?case by simp
next
  case (Cons ev evs)
  then show ?case by (cases ev) auto
qed

lemma removal_files: "open_after opn (removal x opts) = opn" "review_closed opn (removal x opts)"
  "Eyecheck \<notin> set (removal x opts)"
  by (simp_all add: removal_def)

lemma setup_files:
  "open_after {} (setup_events opts) = {Infile_h, Outfile_h, Rejectfile_h}"
  "review_closed {} (setup_events opts)"
  "Eyecheck \<notin> set (setup_events opts)" "CalcSN \<notin> set (setup_events opts)"
  by (auto simp: setup_events_def)

subsection \<open>Runs of the model\<close>

lemma demo_digit: "k < 10 \<Longrightarrow> ''0123456789'' ! k \<noteq> CHR 0x0A"
proof -
  assume "k < 10"
  have l: "length ''0123456789'' = 10" by simp
  from \<open>k < 10\<close> have "k < length ''0123456789''" by (simp only: l)
  then have "''0123456789'' ! k \<in> set ''0123456789''" by (rule nth_mem)
  then show ?thesis by auto
qed

lemma demo_str_one_line: "str_one_line (demo_platform ls)"
proof -
  have "CHR 0x0A \<notin> set (demo_str v)" for v
  proof (cases "0 \<le> v \<and> v < 10")
    case True
    then have "nat v < 10" by linarith
    from demo_digit[OF this] True show ?thesis by (simp add: demo_str_def)
  next
    case False
    show ?thesis
    proof (cases "10 \<le> v \<and> v < 100")
      case True
      then have "0 \<le> v div 10 \<and> v div 10 < 10 \<and> 0 \<le> v mod 10 \<and> v mod 10 < 10"
        by presburger
      then have "nat (v div 10) < 10" "nat (v mod 10) < 10" by linarith+
      from demo_digit[OF this(1)] demo_digit[OF this(2)] True False show ?thesis
        by (simp add: demo_str_def)
    next
      case F2: False
      with False show ?thesis by (auto simp: demo_str_def)
    qed
  qed
  then show ?thesis by (simp add: str_one_line_def demo_platform_def)
qed

lemma demo_options_fields:
  "infile (demo_options c) = ''list.txt''" "outfile (demo_options c) = ''out.csv''"
  "rejectfile (demo_options c) = ''rej.csv''" "eyecheck (demo_options c) = False"
  "sncut (demo_options c) = c" "useGUI (demo_options c) = False"
  "spectraPath (demo_options c) = ''data/''"
  by (simp_all add: demo_options_def)

lemma demo_open: "open_read (demo_platform ls) ''list.txt'' = Inr ls"
  by (simp add: demo_platform_def)

lemma demo_removal: "removal (demo_platform ls) (demo_options c) = []"
  by (simp add: removal_def demo_platform_def demo_options_def)

lemma demo_run_empty:
  "main demo_engine (demo_platform []) (demo_options None) =
     Inr \<lparr>spec = ([], False, False), rejectMessage = [], i_var = None,
       trace = [Open Infile_h ''list.txt'', Open Outfile_h ''out.csv'', Open Rejectfile_h ''rej.csv'',
         Write Outfile_h outfile_header, Write Rejectfile_h rejectfile_header,
         Close Infile_h, Close Outfile_h, Close Rejectfile_h, Eyecheck]\<rparr>"
  by (simp add: main_def finish_def review_def remove_temp_def emit_def
      demo_engine_def demo_platform_def demo_options_def)

lemma demo_run_accept:
  "main demo_engine (demo_platform demo_manifest) (demo_options (Some 8)) =
     Inr \<lparr>spec = (''data/s2'', False, False),
       rejectMessage = ''The following is a list of rejected spectra\<newline>along with the reason for its rejection.\<newline>\<newline>FILE: s2  REASON: S/N = 7 < 8\<newline>FILE: x.fits  REASON: unknownformat\<newline>'',
       i_var = Some 2,
       trace = [Open Infile_h ''list.txt'', Open Outfile_h ''out.csv'', Open Rejectfile_h ''rej.csv'',
         Write Outfile_h outfile_header, Write Rejectfile_h rejectfile_header,
         Print 1 ''star0001.fits'', ReadFile ''data/star0001.fits'' ''obs'', CalcSN,
         NormalizeFlux, GuessSpecType, FindRadialVelocity, ShiftToRest 7, GuessSpecType,
         Write Outfile_h ''star0001.fits,7,G2,+0.0,nan,nan\<newline>'',
         Print 2 ''s2'', ReadFile ''data/s2'' ''obs'', CalcSN,
         Write Rejectfile_h ''s2,obs,7\<newline>'',
         Print 3 ''x.fits'', ReadFile ''data/x.fits'' ''bad'',
         Write Rejectfile_h ''x.fits,bad,N/A\<newline>'',
         Close Infile_h, Close Outfile_h, Close Rejectfile_h,
         Notify False ''The following is a list of rejected spectra\<newline>along with the reason for its rejection.\<newline>\<newline>FILE: s2  REASON: S/N = 7 < 8\<newline>FILE: x.fits  REASON: unknownformat\<newline>'',
         Eyecheck]\<rparr>"
  by (simp add: main_def demo_manifest_def body_def parse_demo quality_gate_def classify_def
      finish_def review_def remove_temp_def notifyUser_def emit_def count_def reject_preamble_def
      replace_def demo_engine_def demo_platform_def demo_options_def demo_str_def index_def
      letters_def accept_row_def)

lemma demo_run_rejects:
  "main demo_engine (demo_platform demo_manifest) (demo_options (Some 19)) =
     Inr \<lparr>spec = (''data/s2'', False, False),
       rejectMessage = ''The following is a list of rejected spectra\<newline>along with the reason for its rejection.\<newline>\<newline>FILE: star0001.fits  REASON: S/N = 18 < 19\<newline>FILE: s2  REASON: S/N = 7 < 19\<newline>FILE: x.fits  REASON: unknownformat\<newline>'',
       i_var = Some 2,
       trace = [Open Infile_h ''list.txt'', Open Outfile_h ''out.csv'', Open Rejectfile_h ''rej.csv'',
         Write Outfile_h outfile_header, Write Rejectfile_h rejectfile_header,
         Print 1 ''star0001.fits'', ReadFile ''data/star0001.fits'' ''obs'', CalcSN,
         Write Rejectfile_h ''star0001.fits,obs,18\<newline>'',
         Print 2 ''s2'', ReadFile ''data/s2'' ''obs'', CalcSN,
         Write Rejectfile_h ''s2,obs,7\<newline>'',
         Print 3 ''x.fits'', ReadFile ''data/x.fits'' ''bad'',
         Write Rejectfile_h ''x.fits,bad,N/A\<newline>'',
         Close Infile_h, Close Outfile_h, Close Rejectfile_h,
         Notify False ''The following is a list of rejected spectra\<newline>along with the reason for its rejection.\<newline>\<newline>FILE: star0001.fits  REASON: S/N = 18 < 19\<newline>FILE: s2  REASON: S/N = 7 < 19\<newline>FILE: x.fits  REASON: unknownformat\<newline>'',
         Notify False ''All spectra were bad. Exiting PyHammer.'']\<rparr>"
  by (simp add: main_def demo_manifest_def body_def parse_demo quality_gate_def classify_def
      finish_def review_def remove_temp_def notifyUser_def emit_def count_def reject_preamble_def
      replace_def demo_engine_def demo_platform_def demo_options_def demo_str_def index_def
      letters_def accept_row_def)

subsection \<open>Accepted lines and exceptions\<close>

lemma body_accept:
  assumes p: "parse_line line = Inr (fname, ftype)"
    and rd: "readFile e (spectraPath opts @ fname) ftype (spec st) = ((True, message), s1)"
    and gate: "case sncut opts of None \<Rightarrow> s2 = s1
               | Some thr \<Rightarrow> \<not> fst (calcSN e s1) < thr \<and> s2 = snd (calcSN e s1)"
    and fr: "findRadialVelocity e (guessSpecType e (normalizeFlux e s2)) = (shift, s3)"
    and s5: "s5 = guessSpecType e (shiftToRest e shift s3)"
    and ix: "index letters (specType (guess e s5)) = Inr letterSpt"
  shows "body e x opts i line st =
    Inr (st\<lparr>spec := s5, i_var := Some i,
          trace := trace st @
            [Print (i + 1) (basename x fname), ReadFile (spectraPath opts @ fname) ftype] @
            (case sncut opts of None \<Rightarrow> [] | Some thr \<Rightarrow> [CalcSN]) @
            [NormalizeFlux, GuessSpecType, FindRadialVelocity, ShiftToRest shift, GuessSpecType,
             Write Outfile_h (fname @ '','' @ str x shift @ '','' @ letterSpt @
               str x (subType (guess e s5)) @ '','' @ format_metal x (metal (guess e s5)) @
               '',nan,nan'' @ [CHR 0x0A])]\<rparr>)"
proof (cases "sncut opts")
  case None
  with gate have s2: "s2 = s1" by simp
  let ?st = "st\<lparr>i_var := Some i, spec := s1,
      trace := trace st @
        [Print (i + 1) (basename x fname), ReadFile (spectraPath opts @ fname) ftype]\<rparr>"
  have fr': "findRadialVelocity e (guessSpecType e (normalizeFlux e (spec ?st))) = (shift, s3)"
    using fr s2 by simp
  show ?thesis
    unfolding body_pass_no_floor[OF p rd None] classify_accept[OF fr' s5[symmetric] ix]
    using None by (simp add: accept_row_def)
next
  case (Some thr)
  with gate have n: "\<not> fst (calcSN e s1) < thr" and s2: "s2 = snd (calcSN e s1)" by simp_all
  have sn: "calcSN e s1 = (fst (calcSN e s1), s2)" using s2 by simp
  let ?st = "st\<lparr>i_var := Some i, spec := s2,
      trace := trace st @
        [Print (i + 1) (basename x fname), ReadFile (spectraPath opts @ fname) ftype, CalcSN]\<rparr>"
  have fr': "findRadialVelocity e (guessSpecType e (normalizeFlux e (spec ?st))) = (shift, s3)"
    using fr by simp
  show ?thesis
    unfolding body_pass_floor[OF p rd Some sn n] classify_accept[OF fr' s5[symmetric] ix]
    using Some by (simp add: accept_row_def)
qed

lemma body_Inr_i_var: "body e x opts i line st = Inr st' \<Longrightarrow> i_var st' = Some i"
  by (auto simp: body_def quality_gate_def classify_def emit_def Let_def
      split: sum.splits prod.splits option.splits if_splits)

lemma body_Inl_error:
  "body e x opts i line st = Inl (err, st') \<Longrightarrow> err = ValueError \<or> err = IndexError"
  by (auto simp: body_def parse_line_def quality_gate_def classify_def emit_def Let_def
      dest: index_letters_error
      split: sum.splits prod.splits option.splits if_splits list.splits)

lemma for_loop_Inr_i_var:
  "for_loop e x opts i lines st = Inr st' \<Longrightarrow> (lines = [] \<and> st' = st) \<or> (\<exists>k. i_var st' = Some k)"
proof (induction lines arbitrary: i st)
  case Nil
  then show ?case by simp
next
  case (Cons line rest)
  from Cons.prems obtain st1 where b: "body e x opts i line st = Inr st1"
    and r: "for_loop e x opts (Suc i) rest st1 = Inr st'"
    by (auto split: sum.splits)
  from Cons.IH[OF r] body_Inr_i_var[OF b] show ?case by auto
qed

lemma for_loop_Inl_error:
  "for_loop e x opts i lines st = Inl (err, st') \<Longrightarrow> err = ValueError \<or> err = IndexError"
proof (induction lines arbitrary: i st)
  case Nil
  then show ?case by simp
next
  case (Cons line rest)
  show ?case
  proof (cases "body e x opts i line st")
    case (Inl r)
    with Cons.prems have "body e x opts i line st = Inl (err, st')" by simp
    then show ?thesis by (rule body_Inl_error)
  next
    case (Inr st1)
    with Cons.prems have "for_loop e x opts (Suc i) rest st1 = Inl (err, st')" by simp
    then show ?thesis by (rule Cons.IH)
  qed
qed

lemma main_raise:
  assumes "main e x opts = Inl (err, st)"
  shows "\<exists>evs. trace st = setup_events opts @ evs \<and> list_all (body_event opts) evs \<and>
     (err = ValueError \<or> err = IndexError)"
proof (cases "eyecheck opts")
  case True
  with assms show ?thesis by (simp add: main_skip)
next
  case False
  show ?thesis
  proof (cases "open_read x (infile opts)")
    case (Inl msg)
    with assms False show ?thesis by (simp add: main_open_failure)
  next
    case (Inr lines)
    let ?st0 = "\<lparr>spec = Spectrum e, rejectMessage = [], i_var = None, trace = setup_events opts\<rparr>"
    note mb = main_batch[OF False Inr, of e]
    show ?thesis
    proof (cases "for_loop e x opts 0 lines ?st0")
      case (Inl r)
      with assms mb have l: "for_loop e x opts 0 lines ?st0 = Inl (err, st)" by simp
      from for_loop_events[of e x opts 0 lines ?st0] l obtain evs where
        "trace st = setup_events opts @ evs" "list_all (body_event opts) evs"
        by (auto simp: final_state_def)
      with for_loop_Inl_error[OF l] show ?thesis by blast
    next
      case (Inr st')
      from for_loop_Inr_i_var[OF Inr] obtain k where
        "rejectMessage st' \<noteq> [] \<longrightarrow> i_var st' = Some k"
        by auto
      from finish_returns[OF this, of x opts] assms mb Inr show ?thesis by simp
    qed
  qed
qed

lemma demo_run_short:
  "main demo_engine (demo_platform demo_short) (demo_options None) =
     Inl (ValueError,
       \<lparr>spec = (''data/a.fits'', True, True), rejectMessage = [], i_var = Some 1,
        trace = [Open Infile_h ''list.txt'', Open Outfile_h ''out.csv'', Open Rejectfile_h ''rej.csv'',
          Write Outfile_h outfile_header, Write Rejectfile_h rejectfile_header,
          Print 1 ''a.fits'', ReadFile ''data/a.fits'' ''obs'', NormalizeFlux, GuessSpecType,
          FindRadialVelocity, ShiftToRest 7, GuessSpecType,
          Write Outfile_h ''a.fits,7,G2,+0.0,nan,nan\<newline>'']\<rparr>)"
  by (simp add: main_def demo_short_def body_def parse_line_def normalise_def strip_def isspace_def
      find_str_def replace_def split_def rsplit1_def quality_gate_def classify_def emit_def
      demo_engine_def demo_platform_def demo_options_def demo_str_def index_def letters_def
      accept_row_def)

section \<open>The claims\<close>

text \<open>
  C9. If opening the input manifest fails, \<open>main\<close> notifies the user with the text of
  the error and returns: the notification is the only effect of the run, so neither output
  file is opened or written, the engine is not called on any item and the Reviewer is not
  invoked.
\<close>

theorem manifest_open_failure:
  assumes "\<not> eyecheck opts" and "open_read x (infile opts) = Inl msg"
  shows "main e x opts =
    Inr \<lparr>spec = Spectrum e, rejectMessage = [], i_var = None, trace = [Notify (useGUI opts) msg]\<rparr>"
  using assms by (rule main_open_failure)

theorem manifest_open_failure_witness:
  "main demo_engine (demo_platform demo_manifest) ((demo_options None)\<lparr>infile := ''missing.txt''\<rparr>) =
     Inr \<lparr>spec = ([], False, False), rejectMessage = [], i_var = None,
          trace = [Notify False ''No such file'']\<rparr>"
  using manifest_open_failure[of "(demo_options None)\<lparr>infile := ''missing.txt''\<rparr>"
      "demo_platform demo_manifest" "''No such file''" demo_engine]
  by (simp add: demo_options_def demo_platform_def demo_engine_def)

text \<open>
  C7. A spectrum that loads, with a floor configured and a measured signal-to-noise value
  below it: the body writes the reject row \<open>fname,ftype,str(snVal)\<close> with the
  measured value, appends the narrative entry that cites \<open>S/N = snVal < floor\<close>, and
  the loop goes on with the next line. The events of the pass are the progress print,
  \<open>readFile\<close>, \<open>calcSN\<close> and the write: no normalisation and no classification.
\<close>

theorem low_sn_rejected:
  assumes "parse_line line = Inr (fname, ftype)"
    and "readFile e (spectraPath opts @ fname) ftype (spec st) = ((True, message), s)"
    and "sncut opts = Some thr"
    and "calcSN e s = (snVal, s')"
    and "snVal < thr"
  shows "\<exists>st'. body e x opts i line st = Inr st' \<and>
     trace st' = trace st @
       [Print (i + 1) (basename x fname), ReadFile (spectraPath opts @ fname) ftype, CalcSN,
        Write Rejectfile_h (fname @ '','' @ ftype @ '','' @ str x snVal @ [CHR 0x0A])] \<and>
     rejectMessage st' = rejectMessage st @ ''FILE: '' @ fname @ ''  REASON: S/N = '' @
       str x snVal @ '' < '' @ str x thr @ [CHR 0x0A] \<and>
     spec st' = s' \<and>
     for_loop e x opts i (line # rest) st = for_loop e x opts (Suc i) rest st'"
  by (simp add: body_low_sn[OF assms])

theorem low_sn_rejected_witness:
  "\<exists>st'. body demo_engine (demo_platform demo_manifest) (demo_options (Some 8)) 0
       ''s2  obs\<newline>''
       \<lparr>spec = ([], False, False), rejectMessage = [], i_var = None, trace = []\<rparr> = Inr st' \<and>
     trace st' = [Print 1 ''s2'', ReadFile ''data/s2'' ''obs'', CalcSN,
        Write Rejectfile_h ''s2,obs,7\<newline>''] \<and>
     rejectMessage st' = ''FILE: s2  REASON: S/N = 7 < 8\<newline>''"
proof -
  let ?st = "\<lparr>spec = ([], False, False), rejectMessage = [], i_var = None, trace = []\<rparr>
    :: (string \<times> bool \<times> bool, int) state"
  have h1: "parse_line ''s2  obs\<newline>'' = Inr (''s2'', ''obs'')"
    by (rule parse_demo)
  have h2: "readFile demo_engine (spectraPath (demo_options (Some 8)) @ ''s2'') ''obs'' (spec ?st) =
      ((True, []), (''data/s2'', False, False))"
    by (simp add: demo_engine_def demo_options_def)
  have h3: "sncut (demo_options (Some 8)) = Some 8"
    by (simp add: demo_options_def)
  have h4: "calcSN demo_engine (''data/s2'', False, False) = (7, (''data/s2'', False, False))"
    by (simp add: demo_engine_def)
  have h5: "(7::int) < 8" by simp
  from low_sn_rejected[OF h1 h2 h3 h4 h5, of "demo_platform demo_manifest" 0 "[]"]
  show ?thesis
    by (auto simp: demo_platform_def demo_str_def demo_options_def)
qed

text \<open>
  C10. The comparison with the floor is strict: a loaded spectrum whose measured
  signal-to-noise value equals the configured floor is not rejected. The body runs the
  normalisation and both classification passes and writes an accept row; no reject row
  and no narrative entry is written.
\<close>

theorem floor_is_strict:
  fixes e :: "('s, 'n::order) engine"
  assumes p: "parse_line line = Inr (fname, ftype)"
    and rd: "readFile e (spectraPath opts @ fname) ftype (spec st) = ((True, message), s)"
    and fl: "sncut opts = Some thr"
    and sn: "calcSN e s = (thr, s')"
    and g: "guess_in_range e"
  shows "\<exists>st' shift letterSpt. body e x opts i line st = Inr st' \<and>
     trace st' = trace st @
       [Print (i + 1) (basename x fname), ReadFile (spectraPath opts @ fname) ftype, CalcSN,
        NormalizeFlux, GuessSpecType, FindRadialVelocity, ShiftToRest shift, GuessSpecType,
        Write Outfile_h (accept_row x fname shift letterSpt (guess e (spec st')))] \<and>
     rejectMessage st' = rejectMessage st"
proof -
  have n: "\<not> thr < thr" by simp
  let ?st = "st\<lparr>i_var := Some i, spec := s',
      trace := trace st @
        [Print (i + 1) (basename x fname), ReadFile (spectraPath opts @ fname) ftype, CalcSN]\<rparr>"
  obtain shift s3 where fr:
    "findRadialVelocity e (guessSpecType e (normalizeFlux e (spec ?st))) = (shift, s3)"
    by (metis surj_pair)
  from index_letters[OF g] obtain l where
    l: "index letters (specType (guess e (guessSpecType e (shiftToRest e shift s3)))) = Inr l"
    by blast
  show ?thesis
    unfolding body_pass_floor[OF p rd fl sn n] classify_accept[OF fr refl l] by auto
qed

theorem floor_is_strict_witness:
  "\<exists>st'. body demo_engine (demo_platform demo_manifest) (demo_options (Some 18)) 0
       ''star0001.fits,obs\<newline>''
       \<lparr>spec = ([], False, False), rejectMessage = [], i_var = None, trace = []\<rparr> = Inr st' \<and>
     trace st' = [Print 1 ''star0001.fits'', ReadFile ''data/star0001.fits'' ''obs'', CalcSN,
        NormalizeFlux, GuessSpecType, FindRadialVelocity, ShiftToRest 7, GuessSpecType,
        Write Outfile_h ''star0001.fits,7,G2,+0.0,nan,nan\<newline>''] \<and>
     rejectMessage st' = []"
proof -
  let ?st = "\<lparr>spec = ([], False, False), rejectMessage = [], i_var = None, trace = []\<rparr>
    :: (string \<times> bool \<times> bool, int) state"
  have h1: "parse_line ''star0001.fits,obs\<newline>'' = Inr (''star0001.fits'', ''obs'')"
    by (rule parse_demo)
  have h2: "readFile demo_engine (spectraPath (demo_options (Some 18)) @ ''star0001.fits'') ''obs''
      (spec ?st) = ((True, []), (''data/star0001.fits'', False, False))"
    by (simp add: demo_engine_def demo_options_def)
  have h3: "sncut (demo_options (Some 18)) = Some 18"
    by (simp add: demo_options_def)
  have h4: "calcSN demo_engine (''data/star0001.fits'', False, False) =
      (18, (''data/star0001.fits'', False, False))"
    by (simp add: demo_engine_def)
  have h5: "guess_in_range demo_engine"
    by (simp add: guess_in_range_def demo_engine_def)
  from floor_is_strict[OF h1 h2 h3 h4 h5, of "demo_platform demo_manifest" 0]
  obtain st' shift letterSpt where
    b: "body demo_engine (demo_platform demo_manifest) (demo_options (Some 18)) 0
       ''star0001.fits,obs\<newline>'' ?st = Inr st'"
    by blast
  have ev: "body demo_engine (demo_platform demo_manifest) (demo_options (Some 18)) 0
       ''star0001.fits,obs\<newline>'' ?st =
     Inr \<lparr>spec = (''data/star0001.fits'', True, True), rejectMessage = [], i_var = Some 0,
        trace = [Print 1 ''star0001.fits'', ReadFile ''data/star0001.fits'' ''obs'', CalcSN,
        NormalizeFlux, GuessSpecType, FindRadialVelocity, ShiftToRest 7, GuessSpecType,
        Write Outfile_h ''star0001.fits,7,G2,+0.0,nan,nan\<newline>'']\<rparr>"
    by (simp add: body_def h1 quality_gate_def classify_def emit_def demo_engine_def
        demo_platform_def demo_options_def demo_str_def index_def letters_def accept_row_def)
  from b ev show ?thesis by auto
qed

text \<open>
  C5 (the code departs from the claim). The commas of a line are replaced by spaces only
  when \<open>find\<close> returns more than 0, so a comma that is the first character of the stripped
  line stays, and so do all the others: the line \<open>,star.fits,obs\<close> is one token and raises
  ValueError, where the line with spaces for commas parses to \<open>(star.fits, obs)\<close>. With the
  first comma further right the commas are normalised.
\<close>

theorem comma_first_not_normalised:
  "parse_line '',star.fits,obs\<newline>'' = Inl ValueError \<and>
   parse_line '' star.fits obs\<newline>'' = Inr (''star.fits'', ''obs'') \<and>
   normalise '',star.fits,obs\<newline>'' = '',star.fits,obs'' \<and>
   normalise ''star.fits,obs\<newline>'' = ''star.fits obs''"
  by (simp add: parse_line_def normalise_def strip_def isspace_def find_str_def replace_def
      split_def rsplit1_def)

text \<open>
  C3. A spectrum that passes the load and the quality gate: the engine is called in the
  order \<open>normalizeFlux\<close>, \<open>guessSpecType\<close>, \<open>findRadialVelocity\<close>, \<open>shiftToRest\<close>,
  \<open>guessSpecType\<close>, with exactly one call of \<open>findRadialVelocity\<close>; the shift that is
  applied and written is the one estimated on the state after the first classification,
  and the letter, the sub-type and the metallicity of the accept row are read from the
  guess of the state \<open>s5\<close> after the second classification.
\<close>

theorem two_pass_order:
  assumes p: "parse_line line = Inr (fname, ftype)"
    and rd: "readFile e (spectraPath opts @ fname) ftype (spec st) = ((True, message), s1)"
    and gate: "case sncut opts of None \<Rightarrow> s2 = s1
               | Some thr \<Rightarrow> \<not> fst (calcSN e s1) < thr \<and> s2 = snd (calcSN e s1)"
    and fr: "findRadialVelocity e (guessSpecType e (normalizeFlux e s2)) = (shift, s3)"
    and s5: "s5 = guessSpecType e (shiftToRest e shift s3)"
    and ix: "index letters (specType (guess e s5)) = Inr letterSpt"
  shows "\<exists>st' evs. body e x opts i line st = Inr st' \<and> spec st' = s5 \<and>
     trace st' = trace st @ evs \<and>
     evs = [Print (i + 1) (basename x fname), ReadFile (spectraPath opts @ fname) ftype] @
       (case sncut opts of None \<Rightarrow> [] | Some thr \<Rightarrow> [CalcSN]) @
       [NormalizeFlux, GuessSpecType, FindRadialVelocity, ShiftToRest shift, GuessSpecType,
        Write Outfile_h (fname @ '','' @ str x shift @ '','' @ letterSpt @
          str x (subType (guess e s5)) @ '','' @ format_metal x (metal (guess e s5)) @
          '',nan,nan'' @ [CHR 0x0A])] \<and>
     length (filter (\<lambda>ev. ev = FindRadialVelocity) evs) = 1"
proof (cases "sncut opts")
  case None
  with gate have s2: "s2 = s1" by simp
  let ?st = "st\<lparr>i_var := Some i, spec := s1,
      trace := trace st @
        [Print (i + 1) (basename x fname), ReadFile (spectraPath opts @ fname) ftype]\<rparr>"
  have fr': "findRadialVelocity e (guessSpecType e (normalizeFlux e (spec ?st))) = (shift, s3)"
    using fr s2 by simp
  show ?thesis
    unfolding body_pass_no_floor[OF p rd None] classify_accept[OF fr' s5[symmetric] ix]
    using None by (simp add: accept_row_def)
next
  case (Some thr)
  with gate have n: "\<not> fst (calcSN e s1) < thr" and s2: "s2 = snd (calcSN e s1)" by simp_all
  have sn: "calcSN e s1 = (fst (calcSN e s1), s2)" using s2 by simp
  let ?st = "st\<lparr>i_var := Some i, spec := s2,
      trace := trace st @
        [Print (i + 1) (basename x fname), ReadFile (spectraPath opts @ fname) ftype, CalcSN]\<rparr>"
  have fr': "findRadialVelocity e (guessSpecType e (normalizeFlux e (spec ?st))) = (shift, s3)"
    using fr by simp
  show ?thesis
    unfolding body_pass_floor[OF p rd Some sn n] classify_accept[OF fr' s5[symmetric] ix]
    using Some by (simp add: accept_row_def)
qed

theorem two_pass_order_witness:
  "\<exists>st'. body demo_engine (demo_platform demo_manifest) (demo_options None) 0
       ''star0001.fits,obs\<newline>''
       \<lparr>spec = ([], False, False), rejectMessage = [], i_var = None, trace = []\<rparr> = Inr st' \<and>
     spec st' = (''data/star0001.fits'', True, True) \<and>
     trace st' = [Print 1 ''star0001.fits'', ReadFile ''data/star0001.fits'' ''obs'',
        NormalizeFlux, GuessSpecType, FindRadialVelocity, ShiftToRest 7, GuessSpecType,
        Write Outfile_h ''star0001.fits,7,G2,+0.0,nan,nan\<newline>'']"
proof -
  let ?st = "\<lparr>spec = ([], False, False), rejectMessage = [], i_var = None, trace = []\<rparr>
    :: (string \<times> bool \<times> bool, int) state"
  let ?s1 = "(''data/star0001.fits'', False, False)"
  have h1: "parse_line ''star0001.fits,obs\<newline>'' = Inr (''star0001.fits'', ''obs'')"
    by (rule parse_demo)
  have h2: "readFile demo_engine (spectraPath (demo_options None) @ ''star0001.fits'') ''obs''
      (spec ?st) = ((True, []), ?s1)"
    by (simp add: demo_engine_def demo_options_def)
  have h3: "case sncut (demo_options None) of None \<Rightarrow> ?s1 = ?s1
      | Some thr \<Rightarrow> \<not> fst (calcSN demo_engine ?s1) < thr \<and> ?s1 = snd (calcSN demo_engine ?s1)"
    by (simp add: demo_options_def)
  have h4: "findRadialVelocity demo_engine (guessSpecType demo_engine (normalizeFlux demo_engine ?s1)) =
      (7, ?s1)"
    by (simp add: demo_engine_def)
  have h5: "(''data/star0001.fits'', True, True) =
      guessSpecType demo_engine (shiftToRest demo_engine 7 ?s1)"
    by (simp add: demo_engine_def)
  have h6: "index letters (specType (guess demo_engine (''data/star0001.fits'', True, True))) = Inr ''G''"
    by (simp add: demo_engine_def index_def letters_def)
  from two_pass_order[OF h1 h2 h3 h4 h5 h6, of "demo_platform demo_manifest" 0]
  show ?thesis
    by (auto simp: demo_platform_def demo_str_def demo_options_def demo_engine_def)
qed

text \<open>
  C4 as stated fails: a line with a single token raises ValueError at the tuple assignment
  of line 71, and nothing in \<open>main\<close> catches it. On the manifest \<open>demo_short\<close> the run
  ends at the second line with the exception; the third line is never read and the files
  are not closed.
\<close>

theorem single_token_aborts:
  "main demo_engine (demo_platform demo_short) (demo_options None) =
     Inl (ValueError,
       \<lparr>spec = (''data/a.fits'', True, True), rejectMessage = [], i_var = Some 1,
        trace = [Open Infile_h ''list.txt'', Open Outfile_h ''out.csv'', Open Rejectfile_h ''rej.csv'',
          Write Outfile_h outfile_header, Write Rejectfile_h rejectfile_header,
          Print 1 ''a.fits'', ReadFile ''data/a.fits'' ''obs'', NormalizeFlux, GuessSpecType,
          FindRadialVelocity, ShiftToRest 7, GuessSpecType,
          Write Outfile_h ''a.fits,7,G2,+0.0,nan,nan\<newline>'']\<rparr>)"
  by (simp add: main_def demo_short_def body_def parse_line_def normalise_def strip_def isspace_def
      find_str_def replace_def split_def rsplit1_def quality_gate_def classify_def emit_def
      demo_engine_def demo_platform_def demo_options_def demo_str_def index_def letters_def
      accept_row_def)

text \<open>
  C4, amended. With an engine whose guess is an index of the eight letters, a line with
  at least two tokens parses, and no failure of its item raises: a load failure is recorded
  by the reject row ending in \<open>,N/A\<close> and its narrative entry, a signal-to-noise value
  below the floor by the reject row with the measured value and its narrative entry, any
  other line gets an accept row, and in each case the loop goes on with the next line. So
  a manifest whose lines all have at least two tokens is processed to its end, with one
  call of \<open>readFile\<close> and one row for each line. A line with fewer than two tokens (a
  single token, or a blank line) raises ValueError out of the loop.
\<close>

theorem item_failures_recorded:
  assumes g: "guess_in_range e" and two: "\<forall>l\<in>set lines. 2 \<le> length (split (normalise l))"
  shows "(\<exists>st'. for_loop e x opts i lines st = Inr st' \<and>
       length (reads (trace st')) = length (reads (trace st)) + length lines \<and>
       length (writes Outfile_h (trace st')) + length (writes Rejectfile_h (trace st')) =
         length (writes Outfile_h (trace st)) + length (writes Rejectfile_h (trace st)) +
         length lines) \<and>
     (2 \<le> length (split (normalise line)) \<longrightarrow>
        (\<exists>fname ftype. parse_line line = Inr (fname, ftype))) \<and>
     (parse_line line = Inr (fname, ftype) \<and>
      readFile e (spectraPath opts @ fname) ftype (spec st) = ((success, message), s1) \<longrightarrow>
        (\<not> success \<longrightarrow>
           (\<exists>st'. body e x opts i line st = Inr st' \<and>
              for_loop e x opts i (line # rest) st = for_loop e x opts (Suc i) rest st' \<and>
              trace st' = trace st @
                [Print (i + 1) (basename x fname), ReadFile (spectraPath opts @ fname) ftype,
                 Write Rejectfile_h (fname @ '','' @ ftype @ '',N/A'' @ [CHR 0x0A])] \<and>
              rejectMessage st' = rejectMessage st @ ''FILE: '' @ fname @ ''  REASON: '' @
                replace message (CHR 0x0A) [] @ [CHR 0x0A])) \<and>
        (success \<and> sncut opts = Some thr \<and> fst (calcSN e s1) < thr \<longrightarrow>
           (\<exists>st'. body e x opts i line st = Inr st' \<and>
              for_loop e x opts i (line # rest) st = for_loop e x opts (Suc i) rest st' \<and>
              trace st' = trace st @
                [Print (i + 1) (basename x fname), ReadFile (spectraPath opts @ fname) ftype, CalcSN,
                 Write Rejectfile_h
                   (fname @ '','' @ ftype @ '','' @ str x (fst (calcSN e s1)) @ [CHR 0x0A])] \<and>
              rejectMessage st' = rejectMessage st @ ''FILE: '' @ fname @ ''  REASON: S/N = '' @
                str x (fst (calcSN e s1)) @ '' < '' @ str x thr @ [CHR 0x0A])) \<and>
        (success \<and>
         (case sncut opts of None \<Rightarrow> True | Some thr \<Rightarrow> \<not> fst (calcSN e s1) < thr) \<longrightarrow>
           (\<exists>st' row. body e x opts i line st = Inr st' \<and>
              for_loop e x opts i (line # rest) st = for_loop e x opts (Suc i) rest st' \<and>
              writes Outfile_h (trace st') = writes Outfile_h (trace st) @ [row] \<and>
              writes Rejectfile_h (trace st') = writes Rejectfile_h (trace st) \<and>
              rejectMessage st' = rejectMessage st))) \<and>
     (\<not> 2 \<le> length (split (normalise line)) \<longrightarrow>
        body e x opts i line st = Inl (ValueError, st\<lparr>i_var := Some i\<rparr>) \<and>
        for_loop e x opts i (line # rest) st = Inl (ValueError, st\<lparr>i_var := Some i\<rparr>))"
proof (intro conjI)
  from for_loop_rows[OF two g, of x opts i st]
  show "\<exists>st'. for_loop e x opts i lines st = Inr st' \<and>
       length (reads (trace st')) = length (reads (trace st)) + length lines \<and>
       length (writes Outfile_h (trace st')) + length (writes Rejectfile_h (trace st')) =
         length (writes Outfile_h (trace st)) + length (writes Rejectfile_h (trace st)) +
         length lines"
    by auto
next
  show "2 \<le> length (split (normalise line)) \<longrightarrow>
        (\<exists>fname ftype. parse_line line = Inr (fname, ftype))"
    using parse_line_two[of line] by blast
next
  show "\<not> 2 \<le> length (split (normalise line)) \<longrightarrow>
        body e x opts i line st = Inl (ValueError, st\<lparr>i_var := Some i\<rparr>) \<and>
        for_loop e x opts i (line # rest) st = Inl (ValueError, st\<lparr>i_var := Some i\<rparr>)"
    by (simp add: parse_line_few body_parse_error)
next
  show "parse_line line = Inr (fname, ftype) \<and>
      readFile e (spectraPath opts @ fname) ftype (spec st) = ((success, message), s1) \<longrightarrow>
        (\<not> success \<longrightarrow>
           (\<exists>st'. body e x opts i line st = Inr st' \<and>
              for_loop e x opts i (line # rest) st = for_loop e x opts (Suc i) rest st' \<and>
              trace st' = trace st @
                [Print (i + 1) (basename x fname), ReadFile (spectraPath opts @ fname) ftype,
                 Write Rejectfile_h (fname @ '','' @ ftype @ '',N/A'' @ [CHR 0x0A])] \<and>
              rejectMessage st' = rejectMessage st @ ''FILE: '' @ fname @ ''  REASON: '' @
                replace message (CHR 0x0A) [] @ [CHR 0x0A])) \<and>
        (success \<and> sncut opts = Some thr \<and> fst (calcSN e s1) < thr \<longrightarrow>
           (\<exists>st'. body e x opts i line st = Inr st' \<and>
              for_loop e x opts i (line # rest) st = for_loop e x opts (Suc i) rest st' \<and>
              trace st' = trace st @
                [Print (i + 1) (basename x fname), ReadFile (spectraPath opts @ fname) ftype, CalcSN,
                 Write Rejectfile_h
                   (fname @ '','' @ ftype @ '','' @ str x (fst (calcSN e s1)) @ [CHR 0x0A])] \<and>
              rejectMessage st' = rejectMessage st @ ''FILE: '' @ fname @ ''  REASON: S/N = '' @
                str x (fst (calcSN e s1)) @ '' < '' @ str x thr @ [CHR 0x0A])) \<and>
        (success \<and>
         (case sncut opts of None \<Rightarrow> True | Some thr \<Rightarrow> \<not> fst (calcSN e s1) < thr) \<longrightarrow>
           (\<exists>st' row. body e x opts i line st = Inr st' \<and>
              for_loop e x opts i (line # rest) st = for_loop e x opts (Suc i) rest st' \<and>
              writes Outfile_h (trace st') = writes Outfile_h (trace st) @ [row] \<and>
              writes Rejectfile_h (trace st') = writes Rejectfile_h (trace st) \<and>
              rejectMessage st' = rejectMessage st))"
  proof (intro impI conjI; (elim conjE)?)
    assume p: "parse_line line = Inr (fname, ftype)"
      and rd: "readFile e (spectraPath opts @ fname) ftype (spec st) = ((success, message), s1)"
      and "\<not> success"
    then have rd': "readFile e (spectraPath opts @ fname) ftype (spec st) = ((False, message), s1)"
      by simp
    show "\<exists>st'. body e x opts i line st = Inr st' \<and>
              for_loop e x opts i (line # rest) st = for_loop e x opts (Suc i) rest st' \<and>
              trace st' = trace st @
                [Print (i + 1) (basename x fname), ReadFile (spectraPath opts @ fname) ftype,
                 Write Rejectfile_h (fname @ '','' @ ftype @ '',N/A'' @ [CHR 0x0A])] \<and>
              rejectMessage st' = rejectMessage st @ ''FILE: '' @ fname @ ''  REASON: '' @
                replace message (CHR 0x0A) [] @ [CHR 0x0A]"
      by (simp add: body_load_failure[OF p rd'])
  next
    assume p: "parse_line line = Inr (fname, ftype)"
      and rd: "readFile e (spectraPath opts @ fname) ftype (spec st) = ((success, message), s1)"
      and su: "success" and fl: "sncut opts = Some thr" and low: "fst (calcSN e s1) < thr"
    from rd su have rd': "readFile e (spectraPath opts @ fname) ftype (spec st) = ((True, message), s1)"
      by simp
    have sn: "calcSN e s1 = (fst (calcSN e s1), snd (calcSN e s1))" by simp
    show "\<exists>st'. body e x opts i line st = Inr st' \<and>
              for_loop e x opts i (line # rest) st = for_loop e x opts (Suc i) rest st' \<and>
              trace st' = trace st @
                [Print (i + 1) (basename x fname), ReadFile (spectraPath opts @ fname) ftype, CalcSN,
                 Write Rejectfile_h
                   (fname @ '','' @ ftype @ '','' @ str x (fst (calcSN e s1)) @ [CHR 0x0A])] \<and>
              rejectMessage st' = rejectMessage st @ ''FILE: '' @ fname @ ''  REASON: S/N = '' @
                str x (fst (calcSN e s1)) @ '' < '' @ str x thr @ [CHR 0x0A]"
      by (simp add: body_low_sn[OF p rd' fl sn low])
  next
    assume p: "parse_line line = Inr (fname, ftype)"
      and rd: "readFile e (spectraPath opts @ fname) ftype (spec st) = ((success, message), s1)"
      and su: "success"
      and gate: "case sncut opts of None \<Rightarrow> True | Some thr \<Rightarrow> \<not> fst (calcSN e s1) < thr"
    from rd su have nr: "\<not> rejected e opts fname ftype (spec st)"
      using gate by (simp add: rejected_def split: option.splits)
    from body_step[OF p g, of x opts i st] nr
    show "\<exists>st' row. body e x opts i line st = Inr st' \<and>
              for_loop e x opts i (line # rest) st = for_loop e x opts (Suc i) rest st' \<and>
              writes Outfile_h (trace st') = writes Outfile_h (trace st) @ [row] \<and>
              writes Rejectfile_h (trace st') = writes Rejectfile_h (trace st) \<and>
              rejectMessage st' = rejectMessage st"
      by auto
  qed
qed

theorem item_failures_recorded_witness:
  "\<exists>st'. for_loop demo_engine (demo_platform demo_manifest) (demo_options (Some 8)) 0 demo_manifest
       \<lparr>spec = ([], False, False), rejectMessage = [], i_var = None, trace = []\<rparr> = Inr st' \<and>
     length (reads (trace st')) = 3 \<and>
     length (writes Outfile_h (trace st')) + length (writes Rejectfile_h (trace st')) = 3"
proof -
  have n: "length demo_manifest = 3" by (simp add: demo_manifest_def)
  from item_failures_recorded[OF demo_guess demo_two_tokens,
      of "demo_platform demo_manifest" "demo_options (Some 8)" 0
         "\<lparr>spec = ([], False, False), rejectMessage = [], i_var = None, trace = []\<rparr>"]
  show ?thesis unfolding n by auto
qed

text \<open>
  C8. Without a floor (\<open>sncut\<close> is None), \<open>calcSN\<close> is never called in a run of
  \<open>main\<close>, every row of the reject file other than its header is a load-failure row
  ending in \<open>,N/A\<close>, and every parsed line whose spectrum loads goes on to the
  normalisation, the first classification, the velocity estimate, the shift and the second
  classification.
\<close>

theorem no_floor_no_quality_reject:
  fixes e :: "('s, 'n::ord) engine"
  assumes nf: "sncut opts = None"
  shows "CalcSN \<notin> set (trace (final_state (main e x opts))) \<and>
     (\<forall>row\<in>set (writes Rejectfile_h (trace (final_state (main e x opts)))).
        row = rejectfile_header \<or>
        (\<exists>fname ftype. row = fname @ '','' @ ftype @ '',N/A'' @ [CHR 0x0A])) \<and>
     (\<forall>line fname ftype message s i st.
        parse_line line = Inr (fname, ftype) \<and>
        readFile e (spectraPath opts @ fname) ftype (spec st) = ((True, message), s) \<longrightarrow>
        (\<exists>evs. trace (final_state (body e x opts i line st)) = trace st @
           [Print (i + 1) (basename x fname), ReadFile (spectraPath opts @ fname) ftype,
            NormalizeFlux, GuessSpecType, FindRadialVelocity,
            ShiftToRest (fst (findRadialVelocity e (guessSpecType e (normalizeFlux e s)))),
            GuessSpecType] @ evs))"
proof (intro conjI allI impI ballI)
  from main_events[of e x opts] obtain pre evs fevs where
    m: "trace (final_state (main e x opts)) = pre @ evs @ fevs"
       "pre = [] \<or> pre = setup_events opts"
       "list_all (body_event opts) evs" "list_all finish_event fevs"
    by blast
  note b = body_events_no_floor[OF m(3) nf] and f = finish_events_quiet[OF m(4)]
  from m(2) b f show "CalcSN \<notin> set (trace (final_state (main e x opts)))"
    unfolding m(1) by (auto simp: setup_files)
  fix row
  assume "row \<in> set (writes Rejectfile_h (trace (final_state (main e x opts))))"
  then have "row \<in> set (writes Rejectfile_h pre) \<or> row \<in> set (writes Rejectfile_h evs)"
    unfolding m(1) using f by (auto simp: writes_append)
  with m(2) b show "row = rejectfile_header \<or>
        (\<exists>fname ftype. row = fname @ '','' @ ftype @ '',N/A'' @ [CHR 0x0A])"
    by (auto simp: writes_setup)
next
  fix line fname ftype message s i and st :: "('s, 'n) state"
  assume a: "parse_line line = Inr (fname, ftype) \<and>
        readFile e (spectraPath opts @ fname) ftype (spec st) = ((True, message), s)"
  let ?st = "st\<lparr>i_var := Some i, spec := s,
      trace := trace st @
        [Print (i + 1) (basename x fname), ReadFile (spectraPath opts @ fname) ftype]\<rparr>"
  obtain shift s3 where fr:
    "findRadialVelocity e (guessSpecType e (normalizeFlux e (spec ?st))) = (shift, s3)"
    by (metis surj_pair)
  then have sh: "fst (findRadialVelocity e (guessSpecType e (normalizeFlux e s))) = shift"
    by simp
  have b: "body e x opts i line st = classify e x fname ?st"
    using a nf by (simp add: body_pass_no_floor)
  show "\<exists>evs. trace (final_state (body e x opts i line st)) = trace st @
           [Print (i + 1) (basename x fname), ReadFile (spectraPath opts @ fname) ftype,
            NormalizeFlux, GuessSpecType, FindRadialVelocity,
            ShiftToRest (fst (findRadialVelocity e (guessSpecType e (normalizeFlux e s)))),
            GuessSpecType] @ evs"
  proof (cases "index letters (specType (guess e (guessSpecType e (shiftToRest e shift s3))))")
    case (Inl err)
    show ?thesis
      unfolding b classify_index_error[OF fr refl Inl] sh by (simp add: final_state_def)
  next
    case (Inr l)
    show ?thesis
      unfolding b classify_accept[OF fr refl Inr] sh by (simp add: final_state_def)
  qed
qed

theorem no_floor_no_quality_reject_witness:
  "CalcSN \<notin> set (trace (final_state
     (main demo_engine (demo_platform demo_manifest) (demo_options None))))"
proof -
  have h: "sncut (demo_options None) = (None :: int option)"
    by (simp add: demo_options_fields)
  from no_floor_no_quality_reject[OF h, of demo_engine "demo_platform demo_manifest"]
  show ?thesis by blast
qed

text \<open>
  C2 as stated fails on the empty manifest: no descriptor is processed and none is
  rejected, so the number of narrative entries equals the number of descriptors, but
  \<open>rejectMessage\<close> is empty, the test on the count of newlines is not reached and the
  Reviewer is invoked.
\<close>

theorem empty_manifest_reviewed:
  "main demo_engine (demo_platform []) (demo_options None) =
     Inr \<lparr>spec = ([], False, False), rejectMessage = [], i_var = None,
       trace = [Open Infile_h ''list.txt'', Open Outfile_h ''out.csv'', Open Rejectfile_h ''rej.csv'',
         Write Outfile_h outfile_header, Write Rejectfile_h rejectfile_header,
         Close Infile_h, Close Outfile_h, Close Rejectfile_h, Eyecheck]\<rparr> \<and>
   length (tl (writes Rejectfile_h (trace (final_state
     (main demo_engine (demo_platform []) (demo_options None)))))) = length ([] :: string list) \<and>
   Eyecheck \<in> set (trace (final_state (main demo_engine (demo_platform []) (demo_options None))))"
  by (simp add: demo_run_empty final_state_def)

text \<open>
  C2, amended. For a manifest with at least one line, all lines parsed, an engine whose
  guess is an index of the eight letters and a \<open>str\<close> that prints a number on one line:
  the narrative with its preamble has three more newlines than there are reject rows, so
  the test \<open>rejectMessage.count('\n') == i+4\<close> (inside \<open>rejectMessage != ''\<close>) holds
  exactly when every descriptor was rejected. In that case the run ends with the two
  notifications and the removal of a manifest whose basename begins with \<open>temp_input_\<close>,
  and the Reviewer is not invoked; when a descriptor was accepted the Reviewer is invoked.
\<close>

theorem all_rejected_test:
  assumes ne: "\<not> eyecheck opts" and op: "open_read x (infile opts) = Inr lines"
    and two: "\<forall>l\<in>set lines. 2 \<le> length (split (normalise l))" and g: "guess_in_range e"
    and one: "str_one_line x" and nonempty: "lines \<noteq> []"
  shows "\<exists>st rej. main e x opts = Inr st \<and>
     writes Rejectfile_h (trace st) = rejectfile_header # rej \<and>
     i_var st = Some (length lines - 1) \<and>
     (rej \<noteq> [] \<longrightarrow> count (rejectMessage st) (CHR 0x0A) = length rej + 3) \<and>
     ((rejectMessage st \<noteq> [] \<and> count (rejectMessage st) (CHR 0x0A) = (length lines - 1) + 4) =
        (length rej = length lines)) \<and>
     (length rej = length lines \<longrightarrow>
        Eyecheck \<notin> set (trace st) \<and>
        (\<exists>pre. trace st = pre @
           [Notify (useGUI opts) (rejectMessage st),
            Notify (useGUI opts) ''All spectra were bad. Exiting PyHammer.''] @ removal x opts)) \<and>
     (length rej < length lines \<longrightarrow> (\<exists>pre. trace st = pre @ [Eyecheck] @ removal x opts))"
proof -
  from main_returns[OF ne op two g] one nonempty obtain st evs where
    s: "main e x opts = Inr st"
       "trace st = setup_events opts @ evs @ [Close Infile_h, Close Outfile_h, Close Rejectfile_h] @
         (if writes Rejectfile_h evs = [] then Eyecheck # removal x opts
          else Notify (useGUI opts) (rejectMessage st) #
            (if count (rejectMessage st) (CHR 0x0A) = length lines + 3
             then Notify (useGUI opts) ''All spectra were bad. Exiting PyHammer.'' # removal x opts
             else Eyecheck # removal x opts))"
       "list_all (body_event opts) evs"
       "length (writes Outfile_h evs) + length (writes Rejectfile_h evs) = length lines"
       "i_var st = Some (length lines - 1)"
       "writes Rejectfile_h evs = [] \<longrightarrow> rejectMessage st = []"
       "writes Rejectfile_h evs \<noteq> [] \<longrightarrow>
          count (rejectMessage st) (CHR 0x0A) = length (writes Rejectfile_h evs) + 3"
    by auto
  let ?rej = "writes Rejectfile_h evs"
  have w: "writes Rejectfile_h (trace st) = rejectfile_header # ?rej"
    unfolding s(2) by (simp add: writes_append writes_setup writes_removal)
  have i4: "length lines - 1 + 4 = length lines + 3"
    using nonempty by (cases lines) simp_all
  have le: "length ?rej \<le> length lines" using s(4) by simp
  have nr: "Eyecheck \<notin> set evs" by (rule body_events_no_review[OF s(3)])
  have c: "(rejectMessage st \<noteq> [] \<and> count (rejectMessage st) (CHR 0x0A) = (length lines - 1) + 4) =
        (length ?rej = length lines)"
  proof (cases "?rej = []")
    case True
    with s(6) nonempty show ?thesis by simp
  next
    case False
    with s(7) have n: "count (rejectMessage st) (CHR 0x0A) = length ?rej + 3" by simp
    then have "rejectMessage st \<noteq> []" by (auto simp: count_def)
    with n i4 show ?thesis by simp
  qed
  have a: "length ?rej = length lines \<longrightarrow>
        Eyecheck \<notin> set (trace st) \<and>
        (\<exists>pre. trace st = pre @
           [Notify (useGUI opts) (rejectMessage st),
            Notify (useGUI opts) ''All spectra were bad. Exiting PyHammer.''] @ removal x opts)"
  proof
    assume all: "length ?rej = length lines"
    with nonempty have ne': "?rej \<noteq> []" by auto
    with s(7) all have n: "count (rejectMessage st) (CHR 0x0A) = length lines + 3" by simp
    have t: "trace st = (setup_events opts @ evs @
        [Close Infile_h, Close Outfile_h, Close Rejectfile_h]) @
        [Notify (useGUI opts) (rejectMessage st),
         Notify (useGUI opts) ''All spectra were bad. Exiting PyHammer.''] @ removal x opts"
      using s(2) ne' n by simp
    have "Eyecheck \<notin> set (trace st)"
      unfolding t using nr by (simp add: setup_files removal_files)
    with t show "Eyecheck \<notin> set (trace st) \<and>
        (\<exists>pre. trace st = pre @
           [Notify (useGUI opts) (rejectMessage st),
            Notify (useGUI opts) ''All spectra were bad. Exiting PyHammer.''] @ removal x opts)"
      by blast
  qed
  have b: "length ?rej < length lines \<longrightarrow> (\<exists>pre. trace st = pre @ [Eyecheck] @ removal x opts)"
  proof
    assume less: "length ?rej < length lines"
    show "\<exists>pre. trace st = pre @ [Eyecheck] @ removal x opts"
    proof (cases "?rej = []")
      case True
      with s(2) have "trace st = (setup_events opts @ evs @
          [Close Infile_h, Close Outfile_h, Close Rejectfile_h]) @ [Eyecheck] @ removal x opts"
        by simp
      then show ?thesis by blast
    next
      case False
      with s(7) less have "count (rejectMessage st) (CHR 0x0A) \<noteq> length lines + 3" by simp
      with s(2) False have "trace st = (setup_events opts @ evs @
          [Close Infile_h, Close Outfile_h, Close Rejectfile_h,
           Notify (useGUI opts) (rejectMessage st)]) @ [Eyecheck] @ removal x opts"
        by simp
      then show ?thesis by blast
    qed
  qed
  show ?thesis
    apply (rule exI[of _ st], rule exI[of _ ?rej])
    using s(1,5,7) w c a b by blast
qed

theorem all_rejected_test_witness:
  "\<exists>st rej. main demo_engine (demo_platform demo_manifest) (demo_options (Some 19)) = Inr st \<and>
     writes Rejectfile_h (trace st) = rejectfile_header # rej \<and>
     length rej = 3 \<and>
     count (rejectMessage st) (CHR 0x0A) = 6 \<and>
     i_var st = Some 2 \<and>
     Eyecheck \<notin> set (trace st)"
proof -
  let ?o = "demo_options (Some 19)" and ?p = "demo_platform demo_manifest"
  have h1: "\<not> eyecheck ?o" by (simp add: demo_options_fields)
  have h2: "open_read ?p (infile ?o) = Inr demo_manifest"
    by (simp add: demo_options_fields demo_open)
  have h3: "demo_manifest \<noteq> []" by (simp add: demo_manifest_def)
  have n: "length demo_manifest = 3" by (simp add: demo_manifest_def)
  from all_rejected_test[OF h1 h2 demo_two_tokens demo_guess demo_str_one_line h3]
  obtain st rej where
    r: "main demo_engine ?p ?o = Inr st"
       "writes Rejectfile_h (trace st) = rejectfile_header # rej"
       "i_var st = Some (length demo_manifest - 1)"
       "rej \<noteq> [] \<longrightarrow> count (rejectMessage st) (CHR 0x0A) = length rej + 3"
       "length rej = length demo_manifest \<longrightarrow> Eyecheck \<notin> set (trace st)"
    by blast
  from r(1) have "writes Rejectfile_h (trace st) =
      [rejectfile_header, ''star0001.fits,obs,18\<newline>'', ''s2,obs,7\<newline>'', ''x.fits,bad,N/A\<newline>'']"
    by (auto simp: demo_run_rejects)
  with r(2) have l: "length rej = 3" by auto
  with r(3,4,5) n have "count (rejectMessage st) (CHR 0x0A) = 6" "i_var st = Some 2"
    "Eyecheck \<notin> set (trace st)"
    by auto
  with r(1,2) l show ?thesis by blast
qed

text \<open>
  C1 as stated fails: on the manifest \<open>demo_short\<close> of three lines the second line has
  a single token, the run ends there with ValueError, and the files hold one accept row and
  no reject row; the third line, which parses, has no row.
\<close>

theorem short_manifest_rows:
  "length demo_short = 3 \<and>
   main demo_engine (demo_platform demo_short) (demo_options None) =
     Inl (ValueError, final_state (main demo_engine (demo_platform demo_short) (demo_options None))) \<and>
   writes Outfile_h (trace (final_state
     (main demo_engine (demo_platform demo_short) (demo_options None)))) =
     [outfile_header, ''a.fits,7,G2,+0.0,nan,nan\<newline>''] \<and>
   writes Rejectfile_h (trace (final_state
     (main demo_engine (demo_platform demo_short) (demo_options None)))) = [rejectfile_header] \<and>
   parse_line ''b.fits obs\<newline>'' = Inr (''b.fits'', ''obs'')"
  by (simp add: demo_run_short final_state_def)
    (simp add: demo_short_def parse_line_def normalise_def strip_def isspace_def find_str_def
      replace_def split_def rsplit1_def)

text \<open>
  C1, amended. In the non-skip mode, for a manifest that opens and whose lines all have at
  least two tokens, with an engine whose guess is an index of the eight letters: \<open>main\<close>
  returns, the accept file holds its header and the accept rows, the reject file its header
  and the reject rows, and the accept rows and the reject rows together are as many as the
  lines of the manifest. Line by line, for a parsed line: a load failure adds exactly the
  row \<open>fname,ftype,N/A\<close> to the reject file and nothing to the accept file; a
  signal-to-noise value below the floor adds exactly the row \<open>fname,ftype,str(snVal)\<close>
  to the reject file and nothing to the accept file; every other line adds exactly the row
  \<open>fname,str(shift),letter str(subType),metal,nan,nan\<close> to the accept file and nothing
  to the reject file.
\<close>

theorem accept_reject_partition:
  assumes ne: "\<not> eyecheck opts" and op: "open_read x (infile opts) = Inr lines"
    and two: "\<forall>l\<in>set lines. 2 \<le> length (split (normalise l))" and g: "guess_in_range e"
  shows "(\<exists>st acc rej. main e x opts = Inr st \<and>
       writes Outfile_h (trace st) = outfile_header # acc \<and>
       writes Rejectfile_h (trace st) = rejectfile_header # rej \<and>
       length acc + length rej = length lines) \<and>
     (parse_line line = Inr (fname, ftype) \<and>
      readFile e (spectraPath opts @ fname) ftype (spec st0) = ((success, message), s1) \<longrightarrow>
       (\<not> success \<longrightarrow>
          (\<exists>st'. body e x opts i line st0 = Inr st' \<and>
             writes Rejectfile_h (trace st') = writes Rejectfile_h (trace st0) @
               [fname @ '','' @ ftype @ '',N/A'' @ [CHR 0x0A]] \<and>
             writes Outfile_h (trace st') = writes Outfile_h (trace st0))) \<and>
       (success \<and> sncut opts = Some thr \<and> fst (calcSN e s1) < thr \<longrightarrow>
          (\<exists>st'. body e x opts i line st0 = Inr st' \<and>
             writes Rejectfile_h (trace st') = writes Rejectfile_h (trace st0) @
               [fname @ '','' @ ftype @ '','' @ str x (fst (calcSN e s1)) @ [CHR 0x0A]] \<and>
             writes Outfile_h (trace st') = writes Outfile_h (trace st0))) \<and>
       (success \<and>
        (case sncut opts of None \<Rightarrow> s2 = s1
         | Some thr \<Rightarrow> \<not> fst (calcSN e s1) < thr \<and> s2 = snd (calcSN e s1)) \<and>
        findRadialVelocity e (guessSpecType e (normalizeFlux e s2)) = (shift, s3) \<and>
        s5 = guessSpecType e (shiftToRest e shift s3) \<longrightarrow>
          (\<exists>st' letterSpt. body e x opts i line st0 = Inr st' \<and>
             index letters (specType (guess e s5)) = Inr letterSpt \<and>
             writes Outfile_h (trace st') = writes Outfile_h (trace st0) @
               [fname @ '','' @ str x shift @ '','' @ letterSpt @ str x (subType (guess e s5)) @
                '','' @ format_metal x (metal (guess e s5)) @ '',nan,nan'' @ [CHR 0x0A]] \<and>
             writes Rejectfile_h (trace st') = writes Rejectfile_h (trace st0))))"
proof (rule conjI)
  from main_returns[OF ne op two g] obtain st evs where
    s: "main e x opts = Inr st"
       "trace st = setup_events opts @ evs @ [Close Infile_h, Close Outfile_h, Close Rejectfile_h] @
         (if writes Rejectfile_h evs = [] then Eyecheck # removal x opts
          else Notify (useGUI opts) (rejectMessage st) #
            (if count (rejectMessage st) (CHR 0x0A) = length lines + 3
             then Notify (useGUI opts) ''All spectra were bad. Exiting PyHammer.'' # removal x opts
             else Eyecheck # removal x opts))"
       "length (writes Outfile_h evs) + length (writes Rejectfile_h evs) = length lines"
    by blast
  have "writes Outfile_h (trace st) = outfile_header # writes Outfile_h evs"
    "writes Rejectfile_h (trace st) = rejectfile_header # writes Rejectfile_h evs"
    unfolding s(2) by (simp_all add: writes_append writes_setup writes_removal)
  with s(1,3) show "\<exists>st acc rej. main e x opts = Inr st \<and>
       writes Outfile_h (trace st) = outfile_header # acc \<and>
       writes Rejectfile_h (trace st) = rejectfile_header # rej \<and>
       length acc + length rej = length lines"
    by blast
next
  show "parse_line line = Inr (fname, ftype) \<and>
      readFile e (spectraPath opts @ fname) ftype (spec st0) = ((success, message), s1) \<longrightarrow>
       (\<not> success \<longrightarrow>
          (\<exists>st'. body e x opts i line st0 = Inr st' \<and>
             writes Rejectfile_h (trace st') = writes Rejectfile_h (trace st0) @
               [fname @ '','' @ ftype @ '',N/A'' @ [CHR 0x0A]] \<and>
             writes Outfile_h (trace st') = writes Outfile_h (trace st0))) \<and>
       (success \<and> sncut opts = Some thr \<and> fst (calcSN e s1) < thr \<longrightarrow>
          (\<exists>st'. body e x opts i line st0 = Inr st' \<and>
             writes Rejectfile_h (trace st') = writes Rejectfile_h (trace st0) @
               [fname @ '','' @ ftype @ '','' @ str x (fst (calcSN e s1)) @ [CHR 0x0A]] \<and>
             writes Outfile_h (trace st') = writes Outfile_h (trace st0))) \<and>
       (success \<and>
        (case sncut opts of None \<Rightarrow> s2 = s1
         | Some thr \<Rightarrow> \<not> fst (calcSN e s1) < thr \<and> s2 = snd (calcSN e s1)) \<and>
        findRadialVelocity e (guessSpecType e (normalizeFlux e s2)) = (shift, s3) \<and>
        s5 = guessSpecType e (shiftToRest e shift s3) \<longrightarrow>
          (\<exists>st' letterSpt. body e x opts i line st0 = Inr st' \<and>
             index letters (specType (guess e s5)) = Inr letterSpt \<and>
             writes Outfile_h (trace st') = writes Outfile_h (trace st0) @
               [fname @ '','' @ str x shift @ '','' @ letterSpt @ str x (subType (guess e s5)) @
                '','' @ format_metal x (metal (guess e s5)) @ '',nan,nan'' @ [CHR 0x0A]] \<and>
             writes Rejectfile_h (trace st') = writes Rejectfile_h (trace st0)))"
  proof (intro impI conjI; (elim conjE)?)
    assume p: "parse_line line = Inr (fname, ftype)"
      and rd: "readFile e (spectraPath opts @ fname) ftype (spec st0) = ((success, message), s1)"
      and "\<not> success"
    then have rd': "readFile e (spectraPath opts @ fname) ftype (spec st0) = ((False, message), s1)"
      by simp
    show "\<exists>st'. body e x opts i line st0 = Inr st' \<and>
             writes Rejectfile_h (trace st') = writes Rejectfile_h (trace st0) @
               [fname @ '','' @ ftype @ '',N/A'' @ [CHR 0x0A]] \<and>
             writes Outfile_h (trace st') = writes Outfile_h (trace st0)"
      unfolding body_load_failure[OF p rd'] by (simp add: writes_append)
  next
    assume p: "parse_line line = Inr (fname, ftype)"
      and rd: "readFile e (spectraPath opts @ fname) ftype (spec st0) = ((success, message), s1)"
      and su: "success" and fl: "sncut opts = Some thr" and low: "fst (calcSN e s1) < thr"
    from rd su have rd': "readFile e (spectraPath opts @ fname) ftype (spec st0) = ((True, message), s1)"
      by simp
    have sn: "calcSN e s1 = (fst (calcSN e s1), snd (calcSN e s1))" by simp
    show "\<exists>st'. body e x opts i line st0 = Inr st' \<and>
             writes Rejectfile_h (trace st') = writes Rejectfile_h (trace st0) @
               [fname @ '','' @ ftype @ '','' @ str x (fst (calcSN e s1)) @ [CHR 0x0A]] \<and>
             writes Outfile_h (trace st') = writes Outfile_h (trace st0)"
      unfolding body_low_sn[OF p rd' fl sn low] by (simp add: writes_append)
  next
    assume p: "parse_line line = Inr (fname, ftype)"
      and rd: "readFile e (spectraPath opts @ fname) ftype (spec st0) = ((success, message), s1)"
      and su: "success"
      and gate: "case sncut opts of None \<Rightarrow> s2 = s1
         | Some thr \<Rightarrow> \<not> fst (calcSN e s1) < thr \<and> s2 = snd (calcSN e s1)"
      and fr: "findRadialVelocity e (guessSpecType e (normalizeFlux e s2)) = (shift, s3)"
      and s5: "s5 = guessSpecType e (shiftToRest e shift s3)"
    from rd su have rd': "readFile e (spectraPath opts @ fname) ftype (spec st0) = ((True, message), s1)"
      by simp
    from index_letters[OF g, of s5] obtain l where l: "index letters (specType (guess e s5)) = Inr l"
      by blast
    show "\<exists>st' letterSpt. body e x opts i line st0 = Inr st' \<and>
             index letters (specType (guess e s5)) = Inr letterSpt \<and>
             writes Outfile_h (trace st') = writes Outfile_h (trace st0) @
               [fname @ '','' @ str x shift @ '','' @ letterSpt @ str x (subType (guess e s5)) @
                '','' @ format_metal x (metal (guess e s5)) @ '',nan,nan'' @ [CHR 0x0A]] \<and>
             writes Rejectfile_h (trace st') = writes Rejectfile_h (trace st0)"
      unfolding body_accept[OF p rd' gate fr s5 l]
      using l by (cases "sncut opts") (simp_all add: writes_append)
  qed
qed

theorem accept_reject_partition_witness:
  "\<exists>st acc rej. main demo_engine (demo_platform demo_manifest) (demo_options (Some 8)) = Inr st \<and>
       writes Outfile_h (trace st) = outfile_header # acc \<and>
       writes Rejectfile_h (trace st) = rejectfile_header # rej \<and>
       length acc + length rej = 3"
proof -
  have h1: "\<not> eyecheck (demo_options (Some 8))" by (simp add: demo_options_def)
  have h2: "open_read (demo_platform demo_manifest) (infile (demo_options (Some 8))) =
      Inr demo_manifest"
    by (simp add: demo_platform_def demo_options_def)
  have n: "length demo_manifest = 3" by (simp add: demo_manifest_def)
  from accept_reject_partition[OF h1 h2 demo_two_tokens demo_guess] show ?thesis
    unfolding n by blast
qed

text \<open>
  C6 as stated fails on an exit by exception: the run on \<open>demo_short\<close> ends with
  ValueError at the second line and leaves the manifest, the accept file and the reject
  file open.
\<close>

theorem short_manifest_files_open:
  "main demo_engine (demo_platform demo_short) (demo_options None) =
     Inl (ValueError, final_state (main demo_engine (demo_platform demo_short) (demo_options None))) \<and>
   open_after {} (trace (final_state
     (main demo_engine (demo_platform demo_short) (demo_options None)))) =
     {Infile_h, Outfile_h, Rejectfile_h}"
  by (auto simp: demo_run_short final_state_def)

text \<open>
  C6, amended. In the non-skip mode, once the manifest is open, the run starts with the
  opening of the accept file and of the reject file and the writing of their two header
  lines, before anything else is written. Whenever \<open>main\<close> returns, on any of its
  return paths, no file is open at the return, and none was open at a call of the
  Reviewer. When an exception ends the run (the ValueError of a line with fewer than two
  tokens, or the IndexError of a guess outside the eight letters), the three files are
  left open and the Reviewer has not been called.
\<close>

theorem output_files_protocol:
  "(\<not> eyecheck opts \<and> open_read x (infile opts) = Inr lines \<longrightarrow>
      (\<exists>evs. trace (final_state (main e x opts)) =
         [Open Infile_h (infile opts), Open Outfile_h (outfile opts),
          Open Rejectfile_h (rejectfile opts), Write Outfile_h outfile_header,
          Write Rejectfile_h rejectfile_header] @ evs)) \<and>
   (main e x opts = Inr st \<longrightarrow> open_after {} (trace st) = {} \<and> review_closed {} (trace st)) \<and>
   (main e x opts = Inl (err, st') \<longrightarrow>
      (err = ValueError \<or> err = IndexError) \<and>
      open_after {} (trace st') = {Infile_h, Outfile_h, Rejectfile_h} \<and>
      Eyecheck \<notin> set (trace st'))"
proof (intro conjI impI)
  assume a: "\<not> eyecheck opts \<and> open_read x (infile opts) = Inr lines"
  let ?st0 = "\<lparr>spec = Spectrum e, rejectMessage = [], i_var = None, trace = setup_events opts\<rparr>"
  from for_loop_events[of e x opts 0 lines ?st0] obtain evs where
    ev: "trace (final_state (for_loop e x opts 0 lines ?st0)) = setup_events opts @ evs"
    by auto
  show "\<exists>evs. trace (final_state (main e x opts)) =
         [Open Infile_h (infile opts), Open Outfile_h (outfile opts),
          Open Rejectfile_h (rejectfile opts), Write Outfile_h outfile_header,
          Write Rejectfile_h rejectfile_header] @ evs"
  proof (cases "for_loop e x opts 0 lines ?st0")
    case (Inl r)
    with ev a show ?thesis
      by (simp add: main_batch final_state_def setup_events_def)
  next
    case (Inr st')
    from finish_events[of x opts st'] obtain fevs where
      "trace (final_state (finish x opts st')) = trace st' @ fevs" by blast
    with Inr ev a show ?thesis
      by (simp add: main_batch final_state_def setup_events_def)
  qed
next
  assume r: "main e x opts = Inr st"
  have c: "open_after {} (trace st) = {} \<and> review_closed {} (trace st)"
  proof (cases "eyecheck opts")
    case True
    with r have "trace st = Eyecheck # removal x opts" by (auto simp: main_skip)
    then show ?thesis by (simp add: removal_files)
  next
    case False
    show ?thesis
    proof (cases "open_read x (infile opts)")
      case (Inl msg)
      with r False have "trace st = [Notify (useGUI opts) msg]"
        by (auto simp: main_open_failure)
      then show ?thesis by simp
    next
      case (Inr ls)
      let ?st0 = "\<lparr>spec = Spectrum e, rejectMessage = [], i_var = None, trace = setup_events opts\<rparr>"
      from r main_batch[OF False Inr, of e] obtain st1 where
        l: "for_loop e x opts 0 ls ?st0 = Inr st1" and f: "finish x opts st1 = Inr st"
        by (cases "for_loop e x opts 0 ls ?st0") auto
      from for_loop_events[of e x opts 0 ls ?st0] l obtain evs where
        ev: "trace st1 = setup_events opts @ evs" "list_all (body_event opts) evs"
        by (auto simp: final_state_def)
      from finish_Inr[OF f] obtain tail where
        t: "trace st = trace st1 @ [Close Infile_h, Close Outfile_h, Close Rejectfile_h] @ tail"
           "(\<exists>g m. tail = Eyecheck # removal x opts \<or> tail = Notify g m # Eyecheck # removal x opts) \<or>
            (\<exists>g m m'. tail = Notify g m # Notify g m' # removal x opts)"
        by blast
      from t(2) have tl: "open_after {} tail = {} \<and> review_closed {} tail"
        by (auto simp: removal_files)
      show ?thesis
        unfolding t(1) ev(1)
        using tl body_events_files[OF ev(2)]
        by (simp add: open_after_append review_closed_append setup_files)
    qed
  qed
  from c show "open_after {} (trace st) = {}" by simp
  from c show "review_closed {} (trace st)" by simp
next
  assume r: "main e x opts = Inl (err, st')"
  from main_raise[OF r] show "err = ValueError \<or> err = IndexError" by blast
next
  assume r: "main e x opts = Inl (err, st')"
  from main_raise[OF r] obtain evs where
    ev: "trace st' = setup_events opts @ evs" "list_all (body_event opts) evs" by blast
  show "open_after {} (trace st') = {Infile_h, Outfile_h, Rejectfile_h}"
    unfolding ev(1) using body_events_files[OF ev(2)]
    by (simp add: open_after_append setup_files)
next
  assume r: "main e x opts = Inl (err, st')"
  from main_raise[OF r] obtain evs where
    ev: "trace st' = setup_events opts @ evs" "list_all (body_event opts) evs" by blast
  show "Eyecheck \<notin> set (trace st')"
    unfolding ev(1) using body_events_no_review[OF ev(2)] by (simp add: setup_files)
qed

theorem output_files_protocol_witness:
  "(\<exists>evs. trace (final_state (main demo_engine (demo_platform demo_manifest) (demo_options (Some 8)))) =
      [Open Infile_h ''list.txt'', Open Outfile_h ''out.csv'', Open Rejectfile_h ''rej.csv'',
       Write Outfile_h outfile_header, Write Rejectfile_h rejectfile_header] @ evs) \<and>
   open_after {}
     (trace (final_state (main demo_engine (demo_platform demo_manifest) (demo_options (Some 8))))) = {} \<and>
   review_closed {}
     (trace (final_state (main demo_engine (demo_platform demo_manifest) (demo_options (Some 8))))) \<and>
   open_after {}
     (trace (final_state (main demo_engine (demo_platform demo_short) (demo_options None)))) =
     {Infile_h, Outfile_h, Rejectfile_h}"
proof -
  let ?m = "main demo_engine (demo_platform demo_manifest) (demo_options (Some 8))"
  let ?r = "main demo_engine (demo_platform demo_short) (demo_options None)"
  have h1: "\<not> eyecheck (demo_options (Some 8)) \<and>
      open_read (demo_platform demo_manifest) (infile (demo_options (Some 8))) = Inr demo_manifest"
    by (simp add: demo_options_fields demo_open)
  have h2: "?m = Inr (final_state ?m)"
    by (simp add: demo_run_accept final_state_def)
  have h3: "?r = Inl (ValueError, final_state ?r)"
    by (simp add: demo_run_short final_state_def)
  from output_files_protocol[of "demo_options (Some 8)" "demo_platform demo_manifest" demo_manifest
      demo_engine "final_state ?m"] h1 h2
  have a: "(\<exists>evs. trace (final_state ?m) =
      [Open Infile_h ''list.txt'', Open Outfile_h ''out.csv'', Open Rejectfile_h ''rej.csv'',
       Write Outfile_h outfile_header, Write Rejectfile_h rejectfile_header] @ evs) \<and>
     open_after {} (trace (final_state ?m)) = {} \<and> review_closed {} (trace (final_state ?m))"
    by (simp add: demo_options_fields)
  from output_files_protocol[of "demo_options None" "demo_platform demo_short" demo_short
      demo_engine _ ValueError "final_state ?r"] h3
  have b: "open_after {} (trace (final_state ?r)) = {Infile_h, Outfile_h, Rejectfile_h}"
    by blast
  from a b show ?thesis by blast
qed

end
